theory Spec2Isabelle
  imports Main "HOL-Library.Word"
begin

unbundle bit_operations_syntax

section \<open>The watchdog subsystem of procd (watchdog.c)\<close>

text \<open>
  The C file keeps its state in file-level globals and talks to the outside through
  \<^verbatim>\<open>system\<close>, \<^verbatim>\<open>write\<close>, \<^verbatim>\<open>ioctl\<close>, \<^verbatim>\<open>open\<close>, \<^verbatim>\<open>fcntl\<close>, the process environment and
  the uloop timer. The embedding passes the globals as a record, takes the answer of every
  external call as an argument of the function that makes the call, and returns the list of
  external calls made (in order) next to the new globals.

  A C \<^verbatim>\<open>int\<close> is a 32-bit word read as two's complement: comparisons are the signed ones
  (\<open><=s\<close>, \<open><s\<close>) and \<open>+\<close> wraps. \<^verbatim>\<open>ssize_t\<close> is a 64-bit word.
\<close>

type_synonym cint = "32 word"
type_synonym ssize_t = "64 word"

subsection \<open>Constants\<close>

definition WATCHDOG_CLIENT_RESTART_CODE :: cint where
  "WATCHDOG_CLIENT_RESTART_CODE = 64"

definition WDTE_FREQUENCY :: cint where
  "WDTE_FREQUENCY = 12"

definition WDTE_FAILURES_THRESHOLD :: cint where
  "WDTE_FAILURES_THRESHOLD = 15"

definition FD_CLOEXEC :: cint where
  "FD_CLOEXEC = 1"

subsection \<open>Globals and external calls\<close>

text \<open>
  \<open>wdt_pending\<close> is the field \<^verbatim>\<open>wdt_timeout.pending\<close>; \<open>wdt_cb\<close> tells whether the field
  \<^verbatim>\<open>wdt_timeout.cb\<close> holds \<open>watchdog_timeout_cb\<close> (it is a null pointer until
  \<open>watchdog_init\<close> assigns it); \<open>env_WDTFD\<close> is the value of the environment variable
  \<^verbatim>\<open>WDTFD\<close> of the process (\<open>None\<close> when it is not set).
\<close>

record wd =
  wdt_pending :: bool
  wdt_cb :: bool
  wdt_fd :: cint
  wdt_frequency :: cint
  wdte_failures :: cint
  wdte_cycle :: cint
  env_WDTFD :: "string option"

text \<open>The initial values of the globals, in an environment \<open>e\<close>.\<close>

definition wd_initial :: "string option \<Rightarrow> wd" where
  "wd_initial e =
     \<lparr>wdt_pending = False, wdt_cb = False, wdt_fd = - 1, wdt_frequency = 5,
      wdte_failures = 0, wdte_cycle = 0, env_WDTFD = e\<rparr>"

text \<open>
  The external calls a function makes, in the order it makes them. \<open>Ev_error\<close> is a
  message written by the \<^verbatim>\<open>ERROR\<close> macro; the \<^verbatim>\<open>DEBUG\<close> and \<^verbatim>\<open>LOG\<close> messages are left out.
\<close>

datatype event =
    Ev_system
  | Ev_write cint
  | Ev_error
  | Ev_ioctl_settimeout cint cint
  | Ev_ioctl_gettimeout cint
  | Ev_open
  | Ev_unsetenv
  | Ev_fcntl_getfd cint
  | Ev_fcntl_setfd cint cint
  | Ev_timer_set cint

text \<open>
  Modelled from the spec: the timer of libubox (\<^verbatim>\<open>uloop_timeout_set\<close>,
  \<^verbatim>\<open>uloop_timeout_cancel\<close> and the event loop that fires a pending timer) is not under src/.
  Setting a timer makes it pending, cancelling it makes it not pending, and the event loop
  runs the callback of a pending timer only, after taking it out of the queue, and only when
  the callback is set.
\<close>

definition uloop_timeout_set :: "cint \<Rightarrow> wd \<Rightarrow> event list \<times> wd" where
  "uloop_timeout_set msecs s = ([Ev_timer_set msecs], s\<lparr>wdt_pending := True\<rparr>)"

definition uloop_timeout_cancel :: "wd \<Rightarrow> event list \<times> wd" where
  "uloop_timeout_cancel s = ([], s\<lparr>wdt_pending := False\<rparr>)"

text \<open>
  Modelled from the spec: the macros \<^verbatim>\<open>WIFEXITED\<close> and \<^verbatim>\<open>WEXITSTATUS\<close> of
  \<^verbatim>\<open>sys/wait.h\<close> are not under src/. The spec speaks of a probe that exited normally and
  of its exit code; the definitions are the Linux encoding of a wait status: the low seven
  bits are zero for a normal exit, and bits 8 to 15 hold the exit code.
\<close>

definition WIFEXITED :: "cint \<Rightarrow> bool" where
  "WIFEXITED status \<longleftrightarrow> status AND 0x7f = 0"

definition WEXITSTATUS :: "cint \<Rightarrow> cint" where
  "WEXITSTATUS status = drop_bit 8 (status AND 0xff00)"

subsection \<open>The extended watchdog\<close>

text \<open>\<open>watchdog_run_client\<close>, given the value \<^verbatim>\<open>system(WATCHDOG_CLIENT)\<close> returned.\<close>

definition watchdog_run_client :: "cint \<Rightarrow> cint" where
  "watchdog_run_client state =
     (if state = - 1 then 2
      else if \<not> WIFEXITED state then 2
      else WEXITSTATUS state)"

text \<open>
  \<open>watchdog_extended sys s\<close>: \<open>sys\<close> is what \<^verbatim>\<open>system\<close> returns if this invocation
  calls it.
\<close>

definition watchdog_extended :: "cint \<Rightarrow> wd \<Rightarrow> event list \<times> wd" where
  "watchdog_extended sys s =
     (let s1 = s\<lparr>wdte_cycle := wdte_cycle s + 1\<rparr> in
      if WDTE_FREQUENCY <=s wdte_cycle s1 then
        (let s2 = s1\<lparr>wdte_cycle := 0\<rparr>;
             state = watchdog_run_client sys
         in if state = 0 then ([Ev_system], s2\<lparr>wdte_failures := 0\<rparr>)
            else if state = WATCHDOG_CLIENT_RESTART_CODE then
              ([Ev_system, Ev_error], s2\<lparr>wdte_failures := WDTE_FAILURES_THRESHOLD\<rparr>)
            else ([Ev_system, Ev_error], s2\<lparr>wdte_failures := wdte_failures s2 + 1\<rparr>))
      else ([], s1))"

subsection \<open>Ping and the timer callback\<close>

text \<open>\<open>watchdog_ping w s\<close>: \<open>w\<close> is what \<^verbatim>\<open>write\<close> returns if it is called.\<close>

definition watchdog_ping :: "ssize_t \<Rightarrow> wd \<Rightarrow> event list \<times> wd" where
  "watchdog_ping w s =
     (if 0 <=s wdt_fd s then
        (if w <s 0 then ([Ev_write (wdt_fd s), Ev_error], s) else ([Ev_write (wdt_fd s)], s))
      else ([], s))"

text \<open>The answers of the external calls one run of the timer callback can make.\<close>

record cb_env =
  cb_system :: cint
  cb_write :: ssize_t

definition watchdog_timeout_cb :: "cb_env \<Rightarrow> wd \<Rightarrow> event list \<times> wd" where
  "watchdog_timeout_cb e s =
     (let (ev1, s1) = watchdog_extended (cb_system e) s in
      if WDTE_FAILURES_THRESHOLD <=s wdte_failures s1 then
        (let (ev2, s2) = uloop_timeout_cancel s1 in (ev1 @ [Ev_error] @ ev2, s2))
      else
        (let (ev2, s2) = watchdog_ping (cb_write e) s1;
             (ev3, s3) = uloop_timeout_set (wdt_frequency s2 * 1000) s2
         in (ev1 @ ev2 @ ev3, s3)))"

definition watchdog_set_stopped :: "bool \<Rightarrow> cb_env \<Rightarrow> wd \<Rightarrow> event list \<times> wd" where
  "watchdog_set_stopped val e s =
     (if val then uloop_timeout_cancel s else watchdog_timeout_cb e s)"

definition watchdog_get_stopped :: "wd \<Rightarrow> bool" where
  "watchdog_get_stopped s \<longleftrightarrow> \<not> wdt_pending s"

subsection \<open>Timeout and frequency\<close>

text \<open>
  \<open>watchdog_timeout timeout aset aget s\<close>: an \<^verbatim>\<open>ioctl\<close> may store a value through its
  pointer argument; \<open>aset\<close> and \<open>aget\<close> are what \<^verbatim>\<open>WDIOC_SETTIMEOUT\<close> and
  \<^verbatim>\<open>WDIOC_GETTIMEOUT\<close> store in \<^verbatim>\<open>timeout\<close> (\<open>None\<close>: the call leaves it as it is, as a
  failed call does). The code ignores the return values. The globals do not change.
\<close>

definition watchdog_timeout ::
  "cint \<Rightarrow> cint option \<Rightarrow> cint option \<Rightarrow> wd \<Rightarrow> event list \<times> cint" where
  "watchdog_timeout timeout aset aget s =
     (if wdt_fd s <s 0 then ([], 0)
      else
        (let (ev1, t1) =
               (if timeout \<noteq> 0 then
                  ([Ev_ioctl_settimeout (wdt_fd s) timeout],
                   (case aset of None \<Rightarrow> timeout | Some v \<Rightarrow> v))
                else ([], timeout));
             t2 = (case aget of None \<Rightarrow> t1 | Some v \<Rightarrow> v)
         in (ev1 @ [Ev_ioctl_gettimeout (wdt_fd s)], t2)))"

definition watchdog_frequency :: "cint \<Rightarrow> wd \<Rightarrow> cint \<times> wd" where
  "watchdog_frequency frequency s =
     (if wdt_fd s <s 0 then (0, s)
      else
        (let s1 = (if frequency \<noteq> 0 then s\<lparr>wdt_frequency := frequency\<rparr> else s)
         in (wdt_frequency s1, s1)))"

subsection \<open>Handing the descriptor over\<close>

text \<open>
  \<^verbatim>\<open>snprintf(fd_buf, sizeof(fd_buf), "%d", wdt_fd)\<close> with \<^verbatim>\<open>char fd_buf[3]\<close>: the decimal
  digits of the descriptor, cut to the two characters that fit before the terminating NUL.
\<close>

fun dec_nat :: "nat \<Rightarrow> string" where
  "dec_nat n =
     (if n < 10 then [''0123456789'' ! n]
      else dec_nat (n div 10) @ [''0123456789'' ! (n mod 10)])"

declare dec_nat.simps [simp del]

definition dec_int :: "int \<Rightarrow> string" where
  "dec_int i = (if i < 0 then CHR ''-'' # dec_nat (nat (- i)) else dec_nat (nat i))"

definition snprintf_d :: "nat \<Rightarrow> cint \<Rightarrow> string" where
  "snprintf_d bufsize v = take (bufsize - 1) (dec_int (sint v))"

definition watchdog_fd :: "wd \<Rightarrow> string option" where
  "watchdog_fd s = (if wdt_fd s <s 0 then None else Some (snprintf_d 3 (wdt_fd s)))"

text \<open>
  \<^verbatim>\<open>atoi\<close> of the C library: white space, an optional sign, then decimal digits up to the
  first character that is not one. The value is computed exactly and then cut to 32 bits
  (in C a value that does not fit an \<^verbatim>\<open>int\<close> is undefined).
\<close>

definition isspace :: "char \<Rightarrow> bool" where
  "isspace c \<longleftrightarrow> c = CHR '' '' \<or> (9 \<le> (of_char c :: nat) \<and> (of_char c :: nat) \<le> 13)"

definition isdigit :: "char \<Rightarrow> bool" where
  "isdigit c \<longleftrightarrow> 48 \<le> (of_char c :: nat) \<and> (of_char c :: nat) \<le> 57"

fun atoi_digits :: "int \<Rightarrow> string \<Rightarrow> int" where
  "atoi_digits acc [] = acc"
| "atoi_digits acc (c # cs) =
     (if isdigit c then atoi_digits (acc * 10 + (of_char c - 48)) cs else acc)"

definition atoi :: "string \<Rightarrow> cint" where
  "atoi str =
     (case dropWhile isspace str of
        [] \<Rightarrow> 0
      | c # cs \<Rightarrow>
          if c = CHR ''-'' then word_of_int (- atoi_digits 0 cs)
          else if c = CHR ''+'' then word_of_int (atoi_digits 0 cs)
          else word_of_int (atoi_digits 0 (c # cs)))"

subsection \<open>Initialisation\<close>

text \<open>
  The answers of the external calls \<open>watchdog_init\<close> can make: the descriptor \<^verbatim>\<open>open\<close>
  returns, the flags \<^verbatim>\<open>fcntl(F_GETFD)\<close> returns, what the two \<^verbatim>\<open>ioctl\<close>s of
  \<^verbatim>\<open>watchdog_timeout(30)\<close> store, the answers for the timer callback, and for the last line
  the debug level and what the \<^verbatim>\<open>ioctl\<close> of \<^verbatim>\<open>watchdog_timeout(0)\<close> stores.
\<close>

record init_env =
  ie_open :: cint
  ie_getfd :: cint
  ie_set :: "cint option"
  ie_get :: "cint option"
  ie_cb :: cb_env
  ie_debug :: cint
  ie_get0 :: "cint option"

text \<open>
  Modelled from the spec: the \<^verbatim>\<open>DEBUG\<close> macro of procd is not under src/, and the spec
  treats logging as a sink. The macro evaluates its arguments only when the debug level of the
  process is at least the level given, so the last line calls \<^verbatim>\<open>watchdog_timeout(0)\<close> only
  from level 4 on; the level is the answer \<open>ie_debug\<close>.
\<close>

definition watchdog_init :: "cint \<Rightarrow> init_env \<Rightarrow> wd \<Rightarrow> event list \<times> wd" where
  "watchdog_init preinit ie s =
     (let env = env_WDTFD s in
      if 0 <=s wdt_fd s then ([], s)
      else
        (let s0 = s\<lparr>wdt_cb := True\<rparr>;
             (ev1, s1) =
               (case env of
                  Some str \<Rightarrow> ([Ev_unsetenv], s0\<lparr>wdt_fd := atoi str, env_WDTFD := None\<rparr>)
                | None \<Rightarrow> ([Ev_open], s0\<lparr>wdt_fd := ie_open ie\<rparr>))
         in if wdt_fd s1 <s 0 then (ev1, s1)
            else
              (let ev2 =
                     (if preinit = 0 then
                        [Ev_fcntl_getfd (wdt_fd s1),
                         Ev_fcntl_setfd (wdt_fd s1) (ie_getfd ie OR FD_CLOEXEC)]
                      else []);
                   ev3 = fst (watchdog_timeout 30 (ie_set ie) (ie_get ie) s1);
                   (ev4, s4) = watchdog_timeout_cb (ie_cb ie) s1;
                   ev5 =
                     (if 4 <=s ie_debug ie then fst (watchdog_timeout 0 None (ie_get0 ie) s4)
                      else [])
               in (ev1 @ ev2 @ ev3 @ ev4 @ ev5, s4))))"

definition watchdog_no_cloexec :: "cint \<Rightarrow> wd \<Rightarrow> event list" where
  "watchdog_no_cloexec getfd s =
     (if wdt_fd s <s 0 then []
      else [Ev_fcntl_getfd (wdt_fd s), Ev_fcntl_setfd (wdt_fd s) (getfd AND NOT FD_CLOEXEC)])"

subsection \<open>Sequences of operations\<close>

text \<open>
  Modelled from the spec: the event loop of libubox is not under src/. It fires the timer:
  nothing happens unless it is pending; a pending timer is taken out of the queue, and its
  callback is run if it is set.
\<close>

definition uloop_fire :: "cb_env \<Rightarrow> wd \<Rightarrow> event list \<times> wd" where
  "uloop_fire e s =
     (if wdt_pending s then
        (let s0 = s\<lparr>wdt_pending := False\<rparr> in
         if wdt_cb s0 then watchdog_timeout_cb e s0 else ([], s0))
      else ([], s))"

text \<open>
  The operations that change the subsystem, each with the answers of its external calls:
  the public functions and the tick of the timer.
\<close>

datatype op =
    Op_init cint init_env
  | Op_tick cb_env
  | Op_set_stopped bool cb_env
  | Op_timeout cint "cint option" "cint option"
  | Op_frequency cint
  | Op_ping ssize_t

fun step :: "op \<Rightarrow> wd \<Rightarrow> event list \<times> wd" where
  "step (Op_init preinit ie) s = watchdog_init preinit ie s"
| "step (Op_tick e) s = uloop_fire e s"
| "step (Op_set_stopped val e) s = watchdog_set_stopped val e s"
| "step (Op_timeout timeout aset aget) s = (fst (watchdog_timeout timeout aset aget s), s)"
| "step (Op_frequency frequency) s = ([], snd (watchdog_frequency frequency s))"
| "step (Op_ping w) s = watchdog_ping w s"

fun run :: "op list \<Rightarrow> wd \<Rightarrow> event list \<times> wd" where
  "run [] s = ([], s)"
| "run (x # xs) s =
     (let (ev, s1) = step x s; (evs, s2) = run xs s1 in (ev @ evs, s2))"

text \<open>
  An operation that runs the timer callback without the timer: a resume request, and an
  initialisation that finds the handle disabled and gets a descriptor.
\<close>

fun calls_cb :: "op \<Rightarrow> wd \<Rightarrow> bool" where
  "calls_cb (Op_set_stopped val e) s = (\<not> val)"
| "calls_cb (Op_init preinit ie) s =
     (wdt_fd s <s 0
      \<and> 0 <=s (case env_WDTFD s of Some str \<Rightarrow> atoi str | None \<Rightarrow> ie_open ie))"
| "calls_cb _ s = False"

text \<open>
  A sequence of operations in which every resume request is made while the failure counter
  is below the threshold.
\<close>

fun is_resume :: "op \<Rightarrow> bool" where
  "is_resume (Op_set_stopped val e) = (\<not> val)"
| "is_resume _ = False"

fun resumes_below_threshold :: "op list \<Rightarrow> wd \<Rightarrow> bool" where
  "resumes_below_threshold [] s = True"
| "resumes_below_threshold (x # xs) s =
     ((\<not> is_resume x \<or> wdte_failures s <s WDTE_FAILURES_THRESHOLD)
      \<and> resumes_below_threshold xs (snd (step x s)))"

text \<open>
  A sequence of operations none of which runs the callback without the timer, and the
  events and operations that the statements about pings count.
\<close>

fun without_resume :: "op list \<Rightarrow> wd \<Rightarrow> bool" where
  "without_resume [] s = True"
| "without_resume (x # xs) s = (\<not> calls_cb x s \<and> without_resume xs (snd (step x s)))"

fun is_write :: "event \<Rightarrow> bool" where
  "is_write (Ev_write fd) = True"
| "is_write _ = False"

fun is_ping :: "op \<Rightarrow> bool" where
  "is_ping (Op_ping w) = True"
| "is_ping _ = False"

text \<open>
  The invariant of the counters: the cycle counter is in \<open>[0, WDTE_FREQUENCY)\<close>, and the
  timer is pending only while the failure counter is below the threshold.
\<close>

definition wd_inv :: "wd \<Rightarrow> bool" where
  "wd_inv s \<longleftrightarrow>
     0 <=s wdte_cycle s \<and> wdte_cycle s <s WDTE_FREQUENCY
     \<and> (wdt_pending s \<longrightarrow> wdte_failures s <s WDTE_FAILURES_THRESHOLD)"

definition failures_in_range :: "wd \<Rightarrow> bool" where
  "failures_in_range s \<longleftrightarrow>
     0 <=s wdte_failures s \<and> wdte_failures s <=s WDTE_FAILURES_THRESHOLD"

text \<open>
  While resume requests are made below the threshold only, a failure counter at the
  threshold has just been set by a probe, so the cycle counter is 0, or the handle is
  enabled and no initialisation runs the callback any more.
\<close>

definition failures_inv :: "wd \<Rightarrow> bool" where
  "failures_inv s \<longleftrightarrow>
     failures_in_range s
     \<and> (wdte_failures s <s WDTE_FAILURES_THRESHOLD \<or> wdte_cycle s = 0 \<or> 0 <=s wdt_fd s)"

text \<open>
  The number of ticks of a list that find the timer pending, which are the ticks that
  happen.
\<close>

fun ticks_fired :: "cb_env list \<Rightarrow> wd \<Rightarrow> nat" where
  "ticks_fired [] s = 0"
| "ticks_fired (e # es) s =
     (if wdt_pending s then 1 else 0) + ticks_fired es (snd (uloop_fire e s))"

text \<open>The extended watchdog invoked once for each element of a list of \<^verbatim>\<open>system\<close> answers.\<close>

fun extended_seq :: "cint list \<Rightarrow> wd \<Rightarrow> event list \<times> wd" where
  "extended_seq [] s = ([], s)"
| "extended_seq (x # xs) s =
     (let (ev, s1) = watchdog_extended x s; (evs, s2) = extended_seq xs s1 in (ev @ evs, s2))"

section \<open>Helper facts\<close>

lemma sint_succ:
  fixes w :: cint
  assumes "sint w < 2147483647"
  shows "sint (w + 1) = sint w + 1"
proof -
  have "- (2 ^ 31) \<le> sint w"
    using sint_ge [of w] by simp
  then show ?thesis
    using assms by (simp add: sint_word_ariths signed_take_bit_int_eq_self)
qed

lemma not_sle_iff: "\<not> (0 <=s (x::cint)) \<longleftrightarrow> x <s 0"
  by (simp add: word_sle_eq word_sless_alt not_le)

lemma status_exit_64: "WIFEXITED 16384 \<and> WEXITSTATUS 16384 = 64"
  by (simp add: WIFEXITED_def WEXITSTATUS_def)

lemma status_exit_1: "WIFEXITED 256 \<and> WEXITSTATUS 256 = 1"
  by (simp add: WIFEXITED_def WEXITSTATUS_def)

lemma status_exit_0: "WIFEXITED 0 \<and> WEXITSTATUS 0 = 0"
  by (simp add: WIFEXITED_def WEXITSTATUS_def)

lemma watchdog_extended_probe:
  assumes "WDTE_FREQUENCY <=s wdte_cycle s + 1"
  shows "watchdog_extended sys s =
     (let s2 = s\<lparr>wdte_cycle := 0\<rparr>; state = watchdog_run_client sys
      in if state = 0 then ([Ev_system], s2\<lparr>wdte_failures := 0\<rparr>)
         else if state = 64 then ([Ev_system, Ev_error], s2\<lparr>wdte_failures := 15\<rparr>)
         else ([Ev_system, Ev_error], s2\<lparr>wdte_failures := wdte_failures s + 1\<rparr>))"
  using assms
  by (simp add: watchdog_extended_def Let_def WATCHDOG_CLIENT_RESTART_CODE_def
      WDTE_FAILURES_THRESHOLD_def)

lemma extended_fd: "wdt_fd (snd (watchdog_extended sys s)) = wdt_fd s"
  by (simp add: watchdog_extended_def Let_def)

lemma extended_frequency: "wdt_frequency (snd (watchdog_extended sys s)) = wdt_frequency s"
  by (simp add: watchdog_extended_def Let_def)

lemma extended_no_write: "Ev_write fd \<notin> set (fst (watchdog_extended sys s))"
  by (simp add: watchdog_extended_def Let_def)

lemma extended_no_timer: "Ev_timer_set ms \<notin> set (fst (watchdog_extended sys s))"
  by (simp add: watchdog_extended_def Let_def)

text \<open>The two branches of the timer callback.\<close>

lemma cb_stop:
  assumes "WDTE_FAILURES_THRESHOLD <=s wdte_failures (snd (watchdog_extended (cb_system e) s))"
  shows "watchdog_timeout_cb e s =
    (fst (watchdog_extended (cb_system e) s) @ [Ev_error],
     (snd (watchdog_extended (cb_system e) s))\<lparr>wdt_pending := False\<rparr>)"
  using assms
  by (simp add: watchdog_timeout_cb_def uloop_timeout_cancel_def split_beta)

lemma cb_rearm:
  assumes "\<not> WDTE_FAILURES_THRESHOLD <=s wdte_failures (snd (watchdog_extended (cb_system e) s))"
  shows "watchdog_timeout_cb e s =
    (fst (watchdog_extended (cb_system e) s)
       @ fst (watchdog_ping (cb_write e) (snd (watchdog_extended (cb_system e) s)))
       @ [Ev_timer_set (wdt_frequency s * 1000)],
     (snd (watchdog_extended (cb_system e) s))\<lparr>wdt_pending := True\<rparr>)"
  using assms
  by (simp add: watchdog_timeout_cb_def uloop_timeout_set_def watchdog_ping_def split_beta
      extended_frequency)

section \<open>The extended watchdog policy\<close>

text \<open>
  Claim C1. On an invocation of \<open>watchdog_extended\<close> where the cycle counter reaches
  \<open>WDTE_FREQUENCY\<close>, the probe is run and the failure counter is set from the value
  \<^verbatim>\<open>system\<close> returned: a probe that could not be launched (\<open>- 1\<close>) or did not exit
  normally adds 1; exit code 0 resets the counter to 0; exit code 64 sets it to
  \<open>WDTE_FAILURES_THRESHOLD = 15\<close>; every other exit code adds 1. The addition is the one of
  a 32-bit \<^verbatim>\<open>int\<close>: below \<^verbatim>\<open>INT_MAX\<close> the signed value grows by exactly 1.
\<close>

theorem C1_probe_classification:
  assumes "WDTE_FREQUENCY <=s wdte_cycle s + 1"
  shows "Ev_system \<in> set (fst (watchdog_extended sys s))
    \<and> (sys = - 1 \<or> \<not> WIFEXITED sys \<longrightarrow>
         wdte_failures (snd (watchdog_extended sys s)) = wdte_failures s + 1)
    \<and> (sys \<noteq> - 1 \<and> WIFEXITED sys \<and> WEXITSTATUS sys = 0 \<longrightarrow>
         wdte_failures (snd (watchdog_extended sys s)) = 0)
    \<and> (sys \<noteq> - 1 \<and> WIFEXITED sys \<and> WEXITSTATUS sys = WATCHDOG_CLIENT_RESTART_CODE \<longrightarrow>
         wdte_failures (snd (watchdog_extended sys s)) = WDTE_FAILURES_THRESHOLD
         \<and> WDTE_FAILURES_THRESHOLD = 15)
    \<and> (sys \<noteq> - 1 \<and> WIFEXITED sys \<and> WEXITSTATUS sys \<noteq> 0
          \<and> WEXITSTATUS sys \<noteq> WATCHDOG_CLIENT_RESTART_CODE \<longrightarrow>
         wdte_failures (snd (watchdog_extended sys s)) = wdte_failures s + 1)
    \<and> (sint (wdte_failures s) < 2147483647 \<longrightarrow>
         sint (wdte_failures s + 1) = sint (wdte_failures s) + 1)"
  using assms
  by (simp add: watchdog_extended_probe watchdog_run_client_def Let_def sint_succ
      WATCHDOG_CLIENT_RESTART_CODE_def WDTE_FAILURES_THRESHOLD_def)

theorem C1_probe_classification_witness:
  "WDTE_FREQUENCY <=s wdte_cycle (wd_initial None\<lparr>wdte_cycle := 11, wdte_failures := 3\<rparr>) + 1
   \<and> wdte_failures (snd (watchdog_extended 16384
         (wd_initial None\<lparr>wdte_cycle := 11, wdte_failures := 3\<rparr>))) = 15
   \<and> wdte_failures (snd (watchdog_extended 0
         (wd_initial None\<lparr>wdte_cycle := 11, wdte_failures := 3\<rparr>))) = 0
   \<and> wdte_failures (snd (watchdog_extended 256
         (wd_initial None\<lparr>wdte_cycle := 11, wdte_failures := 3\<rparr>))) = 4
   \<and> wdte_failures (snd (watchdog_extended (- 1)
         (wd_initial None\<lparr>wdte_cycle := 11, wdte_failures := 3\<rparr>))) = 4"
proof -
  let ?s = "wd_initial None\<lparr>wdte_cycle := 11, wdte_failures := 3\<rparr>"
  have h: "WDTE_FREQUENCY <=s wdte_cycle ?s + 1"
    by (simp add: WDTE_FREQUENCY_def wd_initial_def)
  have f: "wdte_failures ?s + 1 = 4"
    by simp
  have c1: "wdte_failures (snd (watchdog_extended 16384 ?s)) = 15"
    using C1_probe_classification [OF h, of 16384] status_exit_64
    by (simp add: WATCHDOG_CLIENT_RESTART_CODE_def)
  have c2: "wdte_failures (snd (watchdog_extended 0 ?s)) = 0"
    using C1_probe_classification [OF h, of 0] status_exit_0 by simp
  have c3: "wdte_failures (snd (watchdog_extended 256 ?s)) = 4"
    using C1_probe_classification [OF h, of 256] status_exit_1 f
    by (simp add: WATCHDOG_CLIENT_RESTART_CODE_def)
  have c4: "wdte_failures (snd (watchdog_extended (- 1) ?s)) = 4"
    using C1_probe_classification [OF h, of "- 1"] f by simp
  show ?thesis
    using h c1 c2 c3 c4 by blast
qed

section \<open>Stopping and resuming\<close>

text \<open>
  Claim C4, as stated: on an enabled handle \<open>watchdog_get_stopped\<close> is false right after
  \<open>watchdog_set_stopped False\<close>. It fails where the resume runs the probe and the probe asks
  for a restart: descriptor 3, cycle counter 11, \<^verbatim>\<open>system\<close> returning exit code 64. The
  callback then cancels the timer instead of arming it.
\<close>

theorem C4_resume_counterexample:
  "0 <=s wdt_fd (wd_initial None\<lparr>wdt_fd := 3, wdt_cb := True, wdt_pending := True, wdte_cycle := 11\<rparr>)
   \<and> watchdog_get_stopped (snd (watchdog_set_stopped False \<lparr>cb_system = 16384, cb_write = 1\<rparr>
        (wd_initial None\<lparr>wdt_fd := 3, wdt_cb := True, wdt_pending := True, wdte_cycle := 11\<rparr>)))"
  by code_simp

text \<open>
  Claim C4, amended. In every state \<open>watchdog_get_stopped\<close> is true right after
  \<open>watchdog_set_stopped True\<close>; right after \<open>watchdog_set_stopped False\<close> it is false exactly
  when the failure counter is below \<open>WDTE_FAILURES_THRESHOLD\<close> after the extended-watchdog
  cycle that the resume runs, and true otherwise.
\<close>

theorem C4_get_stopped_after_set:
  "watchdog_get_stopped (snd (watchdog_set_stopped True e s))
   \<and> (watchdog_get_stopped (snd (watchdog_set_stopped False e s)) \<longleftrightarrow>
        WDTE_FAILURES_THRESHOLD <=s wdte_failures (snd (watchdog_extended (cb_system e) s)))"
proof (cases "WDTE_FAILURES_THRESHOLD <=s wdte_failures (snd (watchdog_extended (cb_system e) s))")
  case True
  then show ?thesis
    by (simp add: watchdog_get_stopped_def watchdog_set_stopped_def uloop_timeout_cancel_def
        cb_stop)
next
  case False
  then show ?thesis
    by (simp add: watchdog_get_stopped_def watchdog_set_stopped_def uloop_timeout_cancel_def
        cb_rearm)
qed

theorem C4_get_stopped_after_set_witness:
  "watchdog_get_stopped (snd (watchdog_set_stopped True \<lparr>cb_system = 0, cb_write = 1\<rparr>
      (wd_initial None\<lparr>wdt_fd := 3, wdt_cb := True, wdt_pending := True\<rparr>)))
   \<and> \<not> watchdog_get_stopped (snd (watchdog_set_stopped False \<lparr>cb_system = 0, cb_write = 1\<rparr>
      (wd_initial None\<lparr>wdt_fd := 3, wdt_cb := True\<rparr>)))"
proof -
  have h: "\<not> WDTE_FAILURES_THRESHOLD <=s wdte_failures (snd (watchdog_extended
      (cb_system \<lparr>cb_system = 0, cb_write = 1\<rparr>) (wd_initial None\<lparr>wdt_fd := 3, wdt_cb := True\<rparr>)))"
    by code_simp
  show ?thesis
    using h
      C4_get_stopped_after_set [of "\<lparr>cb_system = 0, cb_write = 1\<rparr>"
        "wd_initial None\<lparr>wdt_fd := 3, wdt_cb := True, wdt_pending := True\<rparr>"]
      C4_get_stopped_after_set [of "\<lparr>cb_system = 0, cb_write = 1\<rparr>"
        "wd_initial None\<lparr>wdt_fd := 3, wdt_cb := True\<rparr>"]
    by blast
qed

section \<open>Timeout, frequency and ping\<close>

text \<open>
  Claim C7, as stated: on an enabled handle a set-timeout request is issued if and only if
  \<open>seconds > 0\<close>. The code tests \<^verbatim>\<open>if (timeout)\<close>: with \<open>- 1\<close> on descriptor 3 the request is
  issued although \<open>- 1\<close> is not positive.
\<close>

theorem C7_negative_timeout_counterexample:
  "0 <=s wdt_fd (wd_initial None\<lparr>wdt_fd := 3, wdt_cb := True\<rparr>)
   \<and> Ev_ioctl_settimeout 3 (- 1)
        \<in> set (fst (watchdog_timeout (- 1) None (Some 30) (wd_initial None\<lparr>wdt_fd := 3, wdt_cb := True\<rparr>)))
   \<and> \<not> 0 <s (- 1 :: cint)"
  by code_simp

text \<open>
  Claim C7, amended. On a disabled handle \<open>watchdog_timeout\<close> makes no call and returns 0. On
  an enabled handle it issues a set-timeout request if and only if the argument is not 0 (so
  never for 0), it always ends with a get-timeout query, and it returns the value that query
  stores, which is the driver's current value whenever the query answers.
\<close>

theorem C7_timeout:
  "(wdt_fd s <s 0 \<longrightarrow> watchdog_timeout t aset aget s = ([], 0))
   \<and> (0 <=s wdt_fd s \<longrightarrow>
        fst (watchdog_timeout t aset aget s) =
          (if t \<noteq> 0 then [Ev_ioctl_settimeout (wdt_fd s) t] else [])
            @ [Ev_ioctl_gettimeout (wdt_fd s)]
        \<and> (Ev_ioctl_settimeout (wdt_fd s) t \<in> set (fst (watchdog_timeout t aset aget s))
             \<longleftrightarrow> t \<noteq> 0)
        \<and> (\<forall>v. aget = Some v \<longrightarrow> snd (watchdog_timeout t aset aget s) = v))"
  by (simp add: watchdog_timeout_def not_sle_iff [symmetric] split_beta Let_def)

theorem C7_timeout_witness:
  "0 <=s wdt_fd (wd_initial None\<lparr>wdt_fd := 3, wdt_cb := True\<rparr>)
   \<and> watchdog_timeout 0 None (Some 30) (wd_initial None\<lparr>wdt_fd := 3, wdt_cb := True\<rparr>) =
       ([Ev_ioctl_gettimeout 3], 30)
   \<and> wdt_fd (wd_initial None) <s 0
   \<and> watchdog_timeout 60 (Some 60) (Some 60) (wd_initial None) = ([], 0)"
proof -
  have h1: "0 <=s wdt_fd (wd_initial None\<lparr>wdt_fd := 3, wdt_cb := True\<rparr>)"
    by (simp add: word_sle_eq)
  have h2: "wdt_fd (wd_initial None) <s 0"
    by (simp add: wd_initial_def word_sless_alt)
  from C7_timeout [of "wd_initial None\<lparr>wdt_fd := 3, wdt_cb := True\<rparr>" 0 None "Some 30"] h1
  have c1: "watchdog_timeout 0 None (Some 30) (wd_initial None\<lparr>wdt_fd := 3, wdt_cb := True\<rparr>) =
       ([Ev_ioctl_gettimeout 3], 30)"
    by (simp add: prod_eq_iff)
  from C7_timeout [of "wd_initial None" 60 "Some 60" "Some 60"] h2
  have c2: "watchdog_timeout 60 (Some 60) (Some 60) (wd_initial None) = ([], 0)"
    by simp
  show ?thesis
    using h1 h2 c1 c2 by blast
qed

text \<open>
  Claim C8, as stated: on an enabled handle the ping interval is updated if and only if
  \<open>seconds > 0\<close>. The code tests \<^verbatim>\<open>if (frequency)\<close>: with \<open>- 1\<close> on descriptor 3 the interval
  goes from 5 to \<open>- 1\<close> although \<open>- 1\<close> is not positive.
\<close>

theorem C8_negative_frequency_counterexample:
  "0 <=s wdt_fd (wd_initial None\<lparr>wdt_fd := 3, wdt_cb := True\<rparr>)
   \<and> wdt_frequency (wd_initial None\<lparr>wdt_fd := 3, wdt_cb := True\<rparr>) = 5
   \<and> wdt_frequency (snd (watchdog_frequency (- 1) (wd_initial None\<lparr>wdt_fd := 3, wdt_cb := True\<rparr>))) = - 1
   \<and> \<not> 0 <s (- 1 :: cint)"
  by code_simp

text \<open>
  Claim C8, amended. On a disabled handle \<open>watchdog_frequency\<close> returns 0 and changes
  nothing. On an enabled handle the ping interval is set to the argument if and only if the
  argument is not 0, nothing else changes, and the interval after the call is returned;
  called with 0 it changes nothing.
\<close>

theorem C8_frequency:
  "(wdt_fd s <s 0 \<longrightarrow> watchdog_frequency f s = (0, s))
   \<and> (0 <=s wdt_fd s \<longrightarrow>
        snd (watchdog_frequency f s) = (if f \<noteq> 0 then s\<lparr>wdt_frequency := f\<rparr> else s)
        \<and> fst (watchdog_frequency f s) = wdt_frequency (snd (watchdog_frequency f s)))
   \<and> watchdog_frequency 0 s = (if wdt_fd s <s 0 then 0 else wdt_frequency s, s)"
  by (simp add: watchdog_frequency_def not_sle_iff [symmetric] Let_def)

theorem C8_frequency_witness:
  "0 <=s wdt_fd (wd_initial None\<lparr>wdt_fd := 3, wdt_cb := True\<rparr>)
   \<and> watchdog_frequency 7 (wd_initial None\<lparr>wdt_fd := 3, wdt_cb := True\<rparr>) =
       (7, wd_initial None\<lparr>wdt_fd := 3, wdt_cb := True, wdt_frequency := 7\<rparr>)
   \<and> wdt_fd (wd_initial None) <s 0
   \<and> watchdog_frequency 7 (wd_initial None) = (0, wd_initial None)"
proof -
  have h1: "0 <=s wdt_fd (wd_initial None\<lparr>wdt_fd := 3, wdt_cb := True\<rparr>)"
    by (simp add: word_sle_eq)
  have h2: "wdt_fd (wd_initial None) <s 0"
    by (simp add: wd_initial_def word_sless_alt)
  from C8_frequency [of "wd_initial None\<lparr>wdt_fd := 3, wdt_cb := True\<rparr>" 7] h1
  have c1: "watchdog_frequency 7 (wd_initial None\<lparr>wdt_fd := 3, wdt_cb := True\<rparr>) =
       (7, wd_initial None\<lparr>wdt_fd := 3, wdt_cb := True, wdt_frequency := 7\<rparr>)"
    by (simp add: prod_eq_iff)
  from C8_frequency [of "wd_initial None" 7] h2
  have c2: "watchdog_frequency 7 (wd_initial None) = (0, wd_initial None)"
    by simp
  show ?thesis
    using h1 h2 c1 c2 by blast
qed

text \<open>
  Claim C9. \<open>watchdog_ping\<close> never changes the globals, whatever \<^verbatim>\<open>write\<close> returns: on a
  disabled handle it makes no call at all; on an enabled handle it writes to the descriptor,
  reports an error when the write fails, and the handle stays enabled.
\<close>

theorem C9_ping_frame:
  "snd (watchdog_ping w s) = s
   \<and> (wdt_fd s <s 0 \<longrightarrow> fst (watchdog_ping w s) = [])
   \<and> (0 <=s wdt_fd s \<longrightarrow>
        0 <=s wdt_fd (snd (watchdog_ping w s))
        \<and> fst (watchdog_ping w s) =
            (if w <s 0 then [Ev_write (wdt_fd s), Ev_error] else [Ev_write (wdt_fd s)]))"
  by (simp add: watchdog_ping_def not_sle_iff [symmetric])

theorem C9_ping_frame_witness:
  "0 <=s wdt_fd (wd_initial None\<lparr>wdt_fd := 3, wdt_cb := True\<rparr>)
   \<and> watchdog_ping (- 1) (wd_initial None\<lparr>wdt_fd := 3, wdt_cb := True\<rparr>) =
       ([Ev_write 3, Ev_error], wd_initial None\<lparr>wdt_fd := 3, wdt_cb := True\<rparr>)
   \<and> wdt_fd (wd_initial None) <s 0
   \<and> watchdog_ping (- 1) (wd_initial None) = ([], wd_initial None)"
proof -
  have h1: "0 <=s wdt_fd (wd_initial None\<lparr>wdt_fd := 3, wdt_cb := True\<rparr>)"
    by (simp add: word_sle_eq)
  have h2: "wdt_fd (wd_initial None) <s 0"
    by (simp add: wd_initial_def word_sless_alt)
  have h3: "(- 1 :: ssize_t) <s 0"
    by simp
  from C9_ping_frame [of "- 1" "wd_initial None\<lparr>wdt_fd := 3, wdt_cb := True\<rparr>"] h1 h3
  have c1: "watchdog_ping (- 1) (wd_initial None\<lparr>wdt_fd := 3, wdt_cb := True\<rparr>) =
       ([Ev_write 3, Ev_error], wd_initial None\<lparr>wdt_fd := 3, wdt_cb := True\<rparr>)"
    by (simp add: prod_eq_iff)
  from C9_ping_frame [of "- 1" "wd_initial None"] h2
  have c2: "watchdog_ping (- 1) (wd_initial None) = ([], wd_initial None)"
    by (simp add: prod_eq_iff)
  show ?thesis
    using h1 h2 c1 c2 by blast
qed

lemma not_sle_thresh:
  "\<not> (WDTE_FAILURES_THRESHOLD <=s (x::cint)) \<longleftrightarrow> x <s WDTE_FAILURES_THRESHOLD"
  by (simp add: word_sle_eq word_sless_alt not_le)

lemma ping_disabled: "wdt_fd s <s 0 \<Longrightarrow> watchdog_ping w s = ([], s)"
  by (simp add: watchdog_ping_def not_sle_iff)

section \<open>Resuming on a disabled handle\<close>

text \<open>
  Claim C10. On a disabled handle (descriptor negative) \<open>watchdog_set_stopped False\<close> still
  runs the whole timer callback: the globals after it are those after one
  \<open>watchdog_extended\<close> cycle (which runs the probe when the cycle counter reaches
  \<open>WDTE_FREQUENCY\<close>), with the timer pending exactly when the failure counter is then below
  the threshold; in that case the timer is armed and \<open>watchdog_get_stopped\<close> is false. No
  write to the device is made, and the handle stays disabled.
\<close>

theorem C10_resume_disabled:
  assumes "wdt_fd s <s 0"
  shows "snd (watchdog_set_stopped False e s) =
           (snd (watchdog_extended (cb_system e) s))
             \<lparr>wdt_pending :=
                wdte_failures (snd (watchdog_extended (cb_system e) s)) <s WDTE_FAILURES_THRESHOLD\<rparr>
    \<and> wdte_cycle (snd (watchdog_set_stopped False e s)) =
           wdte_cycle (snd (watchdog_extended (cb_system e) s))
    \<and> wdte_failures (snd (watchdog_set_stopped False e s)) =
           wdte_failures (snd (watchdog_extended (cb_system e) s))
    \<and> wdt_fd (snd (watchdog_set_stopped False e s)) = wdt_fd s
    \<and> (\<forall>fd. Ev_write fd \<notin> set (fst (watchdog_set_stopped False e s)))
    \<and> (WDTE_FREQUENCY <=s wdte_cycle s + 1 \<longrightarrow>
         Ev_system \<in> set (fst (watchdog_set_stopped False e s)))
    \<and> (wdte_failures (snd (watchdog_extended (cb_system e) s)) <s WDTE_FAILURES_THRESHOLD \<longrightarrow>
         fst (watchdog_set_stopped False e s) =
           fst (watchdog_extended (cb_system e) s) @ [Ev_timer_set (wdt_frequency s * 1000)]
         \<and> wdt_pending (snd (watchdog_set_stopped False e s))
         \<and> \<not> watchdog_get_stopped (snd (watchdog_set_stopped False e s)))"
proof (cases "WDTE_FAILURES_THRESHOLD <=s wdte_failures (snd (watchdog_extended (cb_system e) s))")
  case True
  have "WDTE_FREQUENCY <=s wdte_cycle s + 1 \<Longrightarrow>
      Ev_system \<in> set (fst (watchdog_extended (cb_system e) s))"
    by (simp add: watchdog_extended_probe Let_def)
  with True show ?thesis
    by (simp add: watchdog_set_stopped_def cb_stop extended_fd extended_no_write
        not_sle_thresh [symmetric])
next
  case False
  have d: "wdt_fd (snd (watchdog_extended (cb_system e) s)) <s 0"
    using assms by (simp add: extended_fd)
  have p: "WDTE_FREQUENCY <=s wdte_cycle s + 1 \<Longrightarrow>
      Ev_system \<in> set (fst (watchdog_extended (cb_system e) s))"
    by (simp add: watchdog_extended_probe Let_def)
  from False p show ?thesis
    by (simp add: watchdog_set_stopped_def cb_rearm extended_fd extended_no_write
        ping_disabled [OF d] watchdog_get_stopped_def not_sle_thresh [symmetric])
qed

theorem C10_resume_disabled_witness:
  "wdt_fd (wd_initial None) <s 0
   \<and> watchdog_set_stopped False \<lparr>cb_system = 0, cb_write = 1\<rparr> (wd_initial None) =
       ([Ev_timer_set 5000], wd_initial None\<lparr>wdte_cycle := 1, wdt_pending := True\<rparr>)
   \<and> \<not> watchdog_get_stopped
         (snd (watchdog_set_stopped False \<lparr>cb_system = 0, cb_write = 1\<rparr> (wd_initial None)))
   \<and> wdt_fd (wd_initial None\<lparr>wdte_cycle := 11\<rparr>) <s 0
   \<and> WDTE_FREQUENCY <=s wdte_cycle (wd_initial None\<lparr>wdte_cycle := 11\<rparr>) + 1
   \<and> Ev_system \<in> set (fst (watchdog_set_stopped False \<lparr>cb_system = 256, cb_write = 1\<rparr>
         (wd_initial None\<lparr>wdte_cycle := 11\<rparr>)))
   \<and> wdte_failures (snd (watchdog_set_stopped False \<lparr>cb_system = 256, cb_write = 1\<rparr>
         (wd_initial None\<lparr>wdte_cycle := 11\<rparr>))) = 1"
proof -
  let ?e = "\<lparr>cb_system = 0, cb_write = 1\<rparr>"
  let ?e1 = "\<lparr>cb_system = 256, cb_write = 1\<rparr>"
  let ?s1 = "wd_initial None\<lparr>wdte_cycle := 11\<rparr>"
  have h: "wdt_fd (wd_initial None) <s 0"
    by (simp add: wd_initial_def word_sless_alt)
  have x: "watchdog_extended (cb_system ?e) (wd_initial None) = ([], wd_initial None\<lparr>wdte_cycle := 1\<rparr>)"
    by code_simp
  have b: "wdte_failures (wd_initial None\<lparr>wdte_cycle := 1\<rparr>) <s WDTE_FAILURES_THRESHOLD"
    by code_simp
  have f: "wdt_frequency (wd_initial None) * 1000 = 5000"
    by (simp add: wd_initial_def)
  have c: "watchdog_set_stopped False ?e (wd_initial None) =
       ([Ev_timer_set 5000], wd_initial None\<lparr>wdte_cycle := 1, wdt_pending := True\<rparr>)"
    using C10_resume_disabled [OF h, of ?e] x b f
    by (simp add: prod_eq_iff)
  have g: "\<not> watchdog_get_stopped (snd (watchdog_set_stopped False ?e (wd_initial None)))"
    using C10_resume_disabled [OF h, of ?e] x b by (simp add: watchdog_get_stopped_def)
  have h1: "wdt_fd ?s1 <s 0"
    by (simp add: wd_initial_def word_sless_alt)
  have p1: "WDTE_FREQUENCY <=s wdte_cycle ?s1 + 1"
    by (simp add: WDTE_FREQUENCY_def word_sle_eq)
  have x1: "wdte_failures (snd (watchdog_extended (cb_system ?e1) ?s1)) = 1"
    by code_simp
  from C10_resume_disabled [OF h1, of ?e1] p1 x1
  have c1: "Ev_system \<in> set (fst (watchdog_set_stopped False ?e1 ?s1))"
    and c2: "wdte_failures (snd (watchdog_set_stopped False ?e1 ?s1)) = 1"
    by simp_all
  show ?thesis using h c g h1 p1 c1 c2 by blast
qed

section \<open>The probe runs on every twelfth cycle\<close>

lemma sint_of_nat_small: 
  assumes "k < 2147483648" shows "sint (of_nat k :: cint) = int k"
proof -
  have "sint (word_of_int (int k) :: cint) = int k"
    using assms by (simp only: sint_sbintrunc') (simp add: signed_take_bit_int_eq_self)
  then show ?thesis by simp
qed

lemma cycle_below: "k < 11 \<Longrightarrow> \<not> (WDTE_FREQUENCY <=s (of_nat k + 1 :: cint))"
  using sint_of_nat_small [of "Suc k"] by (simp add: word_sle_eq add.commute WDTE_FREQUENCY_def)

lemma cycle_reached: "WDTE_FREQUENCY <=s (11 + 1 :: cint)"
  by (simp add: word_sle_eq WDTE_FREQUENCY_def)

lemma extended_skip:
  assumes "wdte_cycle s = of_nat k" and "k < 11"
  shows "watchdog_extended x s = ([], s\<lparr>wdte_cycle := of_nat (Suc k)\<rparr>)"
  using assms cycle_below [of k]
  by (simp add: watchdog_extended_def Let_def add.commute)

lemma extended_fire:
  assumes "wdte_cycle s = 11"
  shows "wdte_cycle (snd (watchdog_extended x s)) = 0
    \<and> Ev_system \<in> set (fst (watchdog_extended x s))
    \<and> length (filter (\<lambda>ev. ev = Ev_system) (fst (watchdog_extended x s))) = 1"
proof -
  have "WDTE_FREQUENCY <=s wdte_cycle s + 1"
    using assms cycle_reached by simp
  then show ?thesis
    by (simp add: watchdog_extended_probe Let_def)
qed

lemma extended_seq_quiet:
  assumes "wdte_cycle s = of_nat k" and "k + length xs < 12"
  shows "extended_seq xs s = ([], s\<lparr>wdte_cycle := of_nat (k + length xs)\<rparr>)"
  using assms
proof (induction xs arbitrary: s k)
  case Nil
  then show ?case by simp
next
  case (Cons x xs)
  from Cons.prems have k: "k < 11" by simp
  have st: "watchdog_extended x s = ([], s\<lparr>wdte_cycle := of_nat (Suc k)\<rparr>)"
    using Cons.prems(1) k by (rule extended_skip)
  have "extended_seq xs (s\<lparr>wdte_cycle := of_nat (Suc k)\<rparr>) =
      ([], s\<lparr>wdte_cycle := of_nat (Suc k), wdte_cycle := of_nat (Suc k + length xs)\<rparr>)"
    using Cons.prems(2) by (intro Cons.IH) simp_all
  with st show ?case by simp
qed

lemma extended_seq_cycle:
  assumes "wdte_cycle s = of_nat k" and "k < 12"
  shows "wdte_cycle (snd (extended_seq xs s)) = of_nat ((k + length xs) mod 12)
    \<and> length (filter (\<lambda>ev. ev = Ev_system) (fst (extended_seq xs s))) = (k + length xs) div 12"
  using assms
proof (induction xs arbitrary: s k)
  case Nil
  then show ?case by simp
next
  case (Cons x xs)
  show ?case
  proof (cases "k < 11")
    case True
    have st: "watchdog_extended x s = ([], s\<lparr>wdte_cycle := of_nat (Suc k)\<rparr>)"
      using Cons.prems(1) True by (rule extended_skip)
    have "wdte_cycle (s\<lparr>wdte_cycle := of_nat (Suc k)\<rparr>) = of_nat (Suc k)" by simp
    from Cons.IH [OF this] True st show ?thesis
      by (simp add: split_beta)
  next
    case False
    with Cons.prems have k: "k = 11" by simp
    then have c: "wdte_cycle s = 11" using Cons.prems(1) by simp
    have z: "wdte_cycle (snd (watchdog_extended x s)) = of_nat 0"
      using extended_fire [OF c] by simp
    have "(11 + Suc (length xs)) mod 12 = length xs mod 12"
      and "(11 + Suc (length xs)) div 12 = Suc (length xs div 12)"
      by (simp_all add: mod_simps)
    with Cons.IH [OF z] extended_fire [OF c, of x] k show ?thesis
      by (simp add: split_beta)
  qed
qed



lemma ping_no_system: "Ev_system \<notin> set (fst (watchdog_ping w s))"
  by (simp add: watchdog_ping_def)

lemma extended_cb: "wdt_cb (snd (watchdog_extended sys s)) = wdt_cb s"
  by (simp add: watchdog_extended_def Let_def)

text \<open>The globals after the timer callback.\<close>

lemma cb_cases:
  "watchdog_timeout_cb e s =
    (fst (watchdog_timeout_cb e s),
     (snd (watchdog_extended (cb_system e) s))
       \<lparr>wdt_pending :=
          wdte_failures (snd (watchdog_extended (cb_system e) s)) <s WDTE_FAILURES_THRESHOLD\<rparr>)"
proof (cases "WDTE_FAILURES_THRESHOLD <=s wdte_failures (snd (watchdog_extended (cb_system e) s))")
  case True
  then show ?thesis by (simp add: cb_stop not_sle_thresh [symmetric])
next
  case False
  then show ?thesis by (simp add: cb_rearm not_sle_thresh [symmetric])
qed

lemma cb_state:
  "snd (watchdog_timeout_cb e s) =
     (snd (watchdog_extended (cb_system e) s))
       \<lparr>wdt_pending :=
          wdte_failures (snd (watchdog_extended (cb_system e) s)) <s WDTE_FAILURES_THRESHOLD\<rparr>"
  using cb_cases [of e s] by (metis snd_conv)

text \<open>The callback runs the probe when, and as often as, its extended-watchdog cycle does.\<close>

lemma cb_system_events:
  "filter (\<lambda>ev. ev = Ev_system) (fst (watchdog_timeout_cb e s)) =
     filter (\<lambda>ev. ev = Ev_system) (fst (watchdog_extended (cb_system e) s))"
proof (cases "WDTE_FAILURES_THRESHOLD <=s wdte_failures (snd (watchdog_extended (cb_system e) s))")
  case True
  then show ?thesis by (simp add: cb_stop)
next
  case False
  then show ?thesis by (simp add: cb_rearm watchdog_ping_def)
qed

lemma cb_system_mem:
  "Ev_system \<in> set (fst (watchdog_timeout_cb e s)) \<longleftrightarrow>
     Ev_system \<in> set (fst (watchdog_extended (cb_system e) s))"
proof (cases "WDTE_FAILURES_THRESHOLD <=s wdte_failures (snd (watchdog_extended (cb_system e) s))")
  case True
  then show ?thesis by (simp add: cb_stop)
next
  case False
  then show ?thesis by (simp add: cb_rearm ping_no_system)
qed

lemma tick_quiet:
  assumes "wdt_pending s" and "wdt_cb s" and "wdte_failures s <s WDTE_FAILURES_THRESHOLD"
    and "wdte_cycle s = of_nat k" and "k < 11"
  shows "snd (uloop_fire e s) = s\<lparr>wdte_cycle := of_nat (Suc k)\<rparr>
    \<and> Ev_system \<notin> set (fst (uloop_fire e s))"
proof -
  let ?s0 = "s\<lparr>wdt_pending := False\<rparr>"
  have x: "watchdog_extended (cb_system e) ?s0 = ([], ?s0\<lparr>wdte_cycle := of_nat (Suc k)\<rparr>)"
    using assms(4,5) by (intro extended_skip) simp_all
  have "\<not> WDTE_FAILURES_THRESHOLD <=s wdte_failures (snd (watchdog_extended (cb_system e) ?s0))"
    using assms(3) x by (simp add: not_sle_thresh)
  from cb_rearm [OF this] x assms(1,2) show ?thesis
    by (simp add: uloop_fire_def Let_def ping_no_system)
qed

lemma ticks_quiet:
  assumes "wdt_pending s" and "wdt_cb s" and "wdte_failures s <s WDTE_FAILURES_THRESHOLD"
    and "wdte_cycle s = of_nat k" and "k + length es < 12"
  shows "snd (run (map Op_tick es) s) = s\<lparr>wdte_cycle := of_nat (k + length es)\<rparr>
    \<and> Ev_system \<notin> set (fst (run (map Op_tick es) s))
    \<and> ticks_fired es s = length es"
  using assms
proof (induction es arbitrary: s k)
  case Nil
  then show ?case by simp
next
  case (Cons e es)
  from Cons.prems have k: "k < 11" by simp
  let ?s1 = "s\<lparr>wdte_cycle := of_nat (Suc k)\<rparr>"
  have st: "snd (uloop_fire e s) = ?s1" "Ev_system \<notin> set (fst (uloop_fire e s))"
    using tick_quiet [OF Cons.prems(1,2,3,4) k] by simp_all
  have "snd (run (map Op_tick es) ?s1) = ?s1\<lparr>wdte_cycle := of_nat (Suc k + length es)\<rparr>
    \<and> Ev_system \<notin> set (fst (run (map Op_tick es) ?s1))
    \<and> ticks_fired es ?s1 = length es"
    using Cons.prems by (intro Cons.IH) simp_all
  with st Cons.prems(1) show ?case
    by (simp add: split_beta)
qed

text \<open>One tick of a pending timer whose callback is set.\<close>

lemma tick_step:
  assumes "wdt_pending s" and "wdt_cb s" and "wdte_cycle s = of_nat k" and "k < 12"
  shows "(Ev_system \<in> set (fst (uloop_fire e s)) \<longleftrightarrow> k = 11)
    \<and> wdte_cycle (snd (uloop_fire e s)) = of_nat (Suc k mod 12)
    \<and> length (filter (\<lambda>ev. ev = Ev_system) (fst (uloop_fire e s))) = Suc k div 12
    \<and> wdt_cb (snd (uloop_fire e s))"
proof -
  let ?s0 = "s\<lparr>wdt_pending := False\<rparr>"
  have f: "uloop_fire e s = watchdog_timeout_cb e ?s0"
    using assms(1,2) by (simp add: uloop_fire_def Let_def)
  show ?thesis
  proof (cases "k < 11")
    case True
    have "watchdog_extended (cb_system e) ?s0 = ([], ?s0\<lparr>wdte_cycle := of_nat (Suc k)\<rparr>)"
      using assms(3) True by (intro extended_skip) simp_all
    with True assms(2) show ?thesis
      unfolding f by (simp add: cb_state cb_system_events cb_system_mem)
  next
    case False
    with assms(4) have k: "k = 11" by simp
    then have "wdte_cycle ?s0 = 11"
      using assms(3) by simp
    from extended_fire [OF this, of "cb_system e"] k assms(2) show ?thesis
      unfolding f by (simp add: cb_state cb_system_events cb_system_mem extended_cb)
  qed
qed

lemma ticks_cb:
  assumes "wdt_cb s"
  shows "wdt_cb (snd (run (map Op_tick es) s))"
  using assms
proof (induction es arbitrary: s)
  case Nil
  then show ?case by simp
next
  case (Cons e es)
  have "wdt_cb (snd (uloop_fire e s))"
    using Cons.prems by (simp add: uloop_fire_def Let_def cb_state extended_cb)
  from Cons.IH [OF this] show ?case
    by (simp add: split_beta)
qed

text \<open>
  Over any list of ticks the cycle counter and the number of probe runs follow the number of
  ticks that happened.
\<close>

lemma ticks_cycle:
  assumes "wdt_cb s" and "wdte_cycle s = of_nat k" and "k < 12"
  shows "wdte_cycle (snd (run (map Op_tick es) s)) = of_nat ((k + ticks_fired es s) mod 12)
    \<and> length (filter (\<lambda>ev. ev = Ev_system) (fst (run (map Op_tick es) s))) =
        (k + ticks_fired es s) div 12"
  using assms
proof (induction es arbitrary: s k)
  case Nil
  then show ?case by simp
next
  case (Cons e es)
  show ?case
  proof (cases "wdt_pending s")
    case True
    note st = tick_step [OF True Cons.prems, of e]
    have k': "Suc k mod 12 < 12" by simp
    from st have c1: "wdt_cb (snd (uloop_fire e s))"
      and c2: "wdte_cycle (snd (uloop_fire e s)) = of_nat (Suc k mod 12)"
      and c3: "length (filter (\<lambda>ev. ev = Ev_system) (fst (uloop_fire e s))) = Suc k div 12"
      by simp_all
    note ih = Cons.IH [OF c1 c2 k']
    let ?s1 = "snd (uloop_fire e s)"
    let ?n = "ticks_fired es ?s1"
    have a1: "(Suc k mod 12 + ?n) mod 12 = (k + (1 + ?n)) mod 12"
      by (simp add: mod_simps)
    have a2: "Suc k div 12 + (Suc k mod 12 + ?n) div 12 = (k + (1 + ?n)) div 12"
    proof -
      have "k + (1 + ?n) = (Suc k mod 12 + ?n) + 12 * (Suc k div 12)"
        by simp
      then have "(k + (1 + ?n)) div 12 = ((Suc k mod 12 + ?n) + 12 * (Suc k div 12)) div 12"
        by (rule arg_cong)
      also have "\<dots> = Suc k div 12 + (Suc k mod 12 + ?n) div 12"
        by (rule div_mult_self2) simp
      finally show ?thesis
        by (rule sym)
    qed
    have r: "run (map Op_tick (e # es)) s =
        (fst (uloop_fire e s) @ fst (run (map Op_tick es) ?s1), snd (run (map Op_tick es) ?s1))"
      by (simp add: split_beta)
    have tf: "ticks_fired (e # es) s = 1 + ?n"
      using True by simp
    from ih have e1: "wdte_cycle (snd (run (map Op_tick es) ?s1)) = of_nat ((k + (1 + ?n)) mod 12)"
      unfolding a1 by (rule conjunct1)
    from ih have "length (filter (\<lambda>ev. ev = Ev_system) (fst (run (map Op_tick es) ?s1))) =
        (Suc k mod 12 + ?n) div 12"
      by (rule conjunct2)
    with c3 have "length (filter (\<lambda>ev. ev = Ev_system)
        (fst (uloop_fire e s) @ fst (run (map Op_tick es) ?s1))) =
        Suc k div 12 + (Suc k mod 12 + ?n) div 12"
      by (simp only: filter_append length_append)
    then have e2: "length (filter (\<lambda>ev. ev = Ev_system)
        (fst (uloop_fire e s) @ fst (run (map Op_tick es) ?s1))) = (k + (1 + ?n)) div 12"
      unfolding a2 .
    from e1 e2 show ?thesis
      unfolding r tf by (simp only: fst_conv snd_conv) 
  next
    case False
    then have f: "uloop_fire e s = ([], s)"
      by (simp add: uloop_fire_def)
    have r: "run (map Op_tick (e # es)) s = run (map Op_tick es) s"
      by (simp add: f split_beta)
    have tf: "ticks_fired (e # es) s = ticks_fired es s"
      using False by (simp add: f)
    from Cons.IH [OF Cons.prems] show ?thesis
      unfolding r tf .
  qed
qed

text \<open>
  Claim C6. Starting from cycle counter 0: fewer than \<open>WDTE_FREQUENCY = 12\<close> invocations
  of the extended watchdog never run the probe and leave the failure counter (and everything
  but the cycle counter) as it was, and so do fewer than 12 ticks of an armed timer below the
  failure threshold (after initialisation, which sets the callback); the twelfth such tick
  runs the probe and leaves the cycle counter at 0. After any number \<open>n\<close> of invocations,
  or of ticks that happened, the cycle counter is \<open>n mod 12\<close> and the probe has run
  \<open>n div 12\<close> times; the next invocation, or the next tick of the pending timer, runs the
  probe exactly when it is a 12th one, and then leaves the cycle counter at 0.
\<close>

theorem C6_probe_every_frequency:
  assumes "wdte_cycle s = 0"
  shows "(length xs < 12 \<longrightarrow>
           Ev_system \<notin> set (fst (extended_seq xs s))
           \<and> wdte_failures (snd (extended_seq xs s)) = wdte_failures s
           \<and> extended_seq xs s = ([], s\<lparr>wdte_cycle := of_nat (length xs)\<rparr>))
    \<and> (wdt_pending s \<and> wdt_cb s \<and> wdte_failures s <s WDTE_FAILURES_THRESHOLD
          \<and> length es < 12 \<longrightarrow>
           Ev_system \<notin> set (fst (run (map Op_tick es) s))
           \<and> snd (run (map Op_tick es) s) = s\<lparr>wdte_cycle := of_nat (length es)\<rparr>
           \<and> ticks_fired es s = length es)
    \<and> (wdt_pending s \<and> wdt_cb s \<and> wdte_failures s <s WDTE_FAILURES_THRESHOLD
          \<and> length es = 11 \<longrightarrow>
           Ev_system \<in> set (fst (step (Op_tick e) (snd (run (map Op_tick es) s))))
           \<and> wdte_cycle (snd (step (Op_tick e) (snd (run (map Op_tick es) s)))) = 0)
    \<and> (wdt_cb s \<longrightarrow>
           wdte_cycle (snd (run (map Op_tick es) s)) = of_nat (ticks_fired es s mod 12)
           \<and> length (filter (\<lambda>ev. ev = Ev_system) (fst (run (map Op_tick es) s))) =
               ticks_fired es s div 12)
    \<and> (wdt_cb s \<and> wdt_pending (snd (run (map Op_tick es) s)) \<longrightarrow>
           (Ev_system \<in> set (fst (step (Op_tick e) (snd (run (map Op_tick es) s))))
              \<longleftrightarrow> (ticks_fired es s + 1) mod 12 = 0)
           \<and> ((ticks_fired es s + 1) mod 12 = 0 \<longrightarrow>
                wdte_cycle (snd (step (Op_tick e) (snd (run (map Op_tick es) s)))) = 0))
    \<and> wdte_cycle (snd (extended_seq xs s)) = of_nat (length xs mod 12)
    \<and> length (filter (\<lambda>ev. ev = Ev_system) (fst (extended_seq xs s))) = length xs div 12
    \<and> (Ev_system \<in> set (fst (watchdog_extended x (snd (extended_seq xs s))))
         \<longleftrightarrow> (length xs + 1) mod 12 = 0)
    \<and> ((length xs + 1) mod 12 = 0 \<longrightarrow>
         wdte_cycle (snd (watchdog_extended x (snd (extended_seq xs s)))) = 0)"
proof -
  have c0: "wdte_cycle s = of_nat 0"
    using assms by simp
  have q: "length xs < 12 \<Longrightarrow> extended_seq xs s = ([], s\<lparr>wdte_cycle := of_nat (length xs)\<rparr>)"
    using extended_seq_quiet [OF c0, of xs] by simp
  have t: "wdt_pending s \<Longrightarrow> wdt_cb s \<Longrightarrow> wdte_failures s <s WDTE_FAILURES_THRESHOLD
      \<Longrightarrow> length es < 12 \<Longrightarrow>
      Ev_system \<notin> set (fst (run (map Op_tick es) s))
      \<and> snd (run (map Op_tick es) s) = s\<lparr>wdte_cycle := of_nat (length es)\<rparr>
      \<and> ticks_fired es s = length es"
    using ticks_quiet [OF _ _ _ c0, of es] by simp
  have tc: "wdt_cb s \<Longrightarrow>
      wdte_cycle (snd (run (map Op_tick es) s)) = of_nat (ticks_fired es s mod 12)
      \<and> length (filter (\<lambda>ev. ev = Ev_system) (fst (run (map Op_tick es) s))) =
          ticks_fired es s div 12"
    using ticks_cycle [OF _ c0, of es] by simp
  let ?s2 = "snd (run (map Op_tick es) s)"
  have tn: "(Ev_system \<in> set (fst (step (Op_tick e) ?s2)) \<longleftrightarrow> (ticks_fired es s + 1) mod 12 = 0)
      \<and> ((ticks_fired es s + 1) mod 12 = 0 \<longrightarrow> wdte_cycle (snd (step (Op_tick e) ?s2)) = 0)"
    if cb: "wdt_cb s" and p: "wdt_pending ?s2"
  proof -
    let ?k = "ticks_fired es s mod 12"
    have cy: "wdte_cycle ?s2 = of_nat ?k"
      using tc [OF cb] by simp
    have k: "?k < 12" by simp
    note st = tick_step [OF p ticks_cb [OF cb] cy k, of e]
    have a: "?k = 11 \<longleftrightarrow> (ticks_fired es s + 1) mod 12 = 0"
      by presburger
    have b: "(ticks_fired es s + 1) mod 12 = 0 \<Longrightarrow> Suc ?k mod 12 = 0"
      by (simp add: mod_simps)
    from st a b show ?thesis
      by simp
  qed
  have tw: "Ev_system \<in> set (fst (step (Op_tick e) ?s2)) \<and> wdte_cycle (snd (step (Op_tick e) ?s2)) = 0"
    if "wdt_pending s" and cb: "wdt_cb s" and "wdte_failures s <s WDTE_FAILURES_THRESHOLD"
      and l: "length es = 11"
  proof -
    from t [OF that(1,2,3)] l have s2: "?s2 = s\<lparr>wdte_cycle := of_nat 11\<rparr>"
      and tf: "ticks_fired es s = 11"
      by simp_all
    have p: "wdt_pending ?s2"
      using that(1) s2 by simp
    from tn [OF cb p] tf show ?thesis
      by simp
  qed
  have cyc: "wdte_cycle (snd (extended_seq xs s)) = of_nat (length xs mod 12)"
    and cnt: "length (filter (\<lambda>ev. ev = Ev_system) (fst (extended_seq xs s))) = length xs div 12"
    using extended_seq_cycle [OF c0, of xs] by simp_all
  let ?s1 = "snd (extended_seq xs s)"
  have nxt: "(Ev_system \<in> set (fst (watchdog_extended x ?s1)) \<longleftrightarrow> (length xs + 1) mod 12 = 0)
    \<and> ((length xs + 1) mod 12 = 0 \<longrightarrow> wdte_cycle (snd (watchdog_extended x ?s1)) = 0)"
  proof (cases "length xs mod 12 < 11")
    case True
    then have "(length xs + 1) mod 12 \<noteq> 0"
      by presburger
    with extended_skip [OF cyc True, of x] show ?thesis by simp
  next
    case False
    then have m: "length xs mod 12 = 11" "(length xs + 1) mod 12 = 0"
      by presburger+
    have "wdte_cycle ?s1 = 11"
      using cyc m(1) by simp
    from extended_fire [OF this, of x] m(2) show ?thesis by simp
  qed
  from q have c1: "length xs < 12 \<longrightarrow>
           Ev_system \<notin> set (fst (extended_seq xs s))
           \<and> wdte_failures (snd (extended_seq xs s)) = wdte_failures s
           \<and> extended_seq xs s = ([], s\<lparr>wdte_cycle := of_nat (length xs)\<rparr>)"
    by simp
  from t have c2: "wdt_pending s \<and> wdt_cb s \<and> wdte_failures s <s WDTE_FAILURES_THRESHOLD
          \<and> length es < 12 \<longrightarrow>
           Ev_system \<notin> set (fst (run (map Op_tick es) s))
           \<and> snd (run (map Op_tick es) s) = s\<lparr>wdte_cycle := of_nat (length es)\<rparr>
           \<and> ticks_fired es s = length es"
    by (rule_tac impI) (elim conjE)
  from tw have c3: "wdt_pending s \<and> wdt_cb s \<and> wdte_failures s <s WDTE_FAILURES_THRESHOLD
          \<and> length es = 11 \<longrightarrow>
           Ev_system \<in> set (fst (step (Op_tick e) (snd (run (map Op_tick es) s))))
           \<and> wdte_cycle (snd (step (Op_tick e) (snd (run (map Op_tick es) s)))) = 0"
    by (rule_tac impI) (elim conjE)
  from tc have c4: "wdt_cb s \<longrightarrow>
           wdte_cycle (snd (run (map Op_tick es) s)) = of_nat (ticks_fired es s mod 12)
           \<and> length (filter (\<lambda>ev. ev = Ev_system) (fst (run (map Op_tick es) s))) =
               ticks_fired es s div 12"
    by (rule_tac impI)
  from tn have c5: "wdt_cb s \<and> wdt_pending (snd (run (map Op_tick es) s)) \<longrightarrow>
           (Ev_system \<in> set (fst (step (Op_tick e) (snd (run (map Op_tick es) s))))
              \<longleftrightarrow> (ticks_fired es s + 1) mod 12 = 0)
           \<and> ((ticks_fired es s + 1) mod 12 = 0 \<longrightarrow>
                wdte_cycle (snd (step (Op_tick e) (snd (run (map Op_tick es) s)))) = 0)"
    by (rule_tac impI) (elim conjE)
  from nxt have c8: "Ev_system \<in> set (fst (watchdog_extended x (snd (extended_seq xs s))))
         \<longleftrightarrow> (length xs + 1) mod 12 = 0"
    and c9: "(length xs + 1) mod 12 = 0 \<longrightarrow>
         wdte_cycle (snd (watchdog_extended x (snd (extended_seq xs s)))) = 0"
    by (rule conjunct1, rule conjunct2)
  show ?thesis
    using c1 c2 c3 c4 c5 cyc cnt c8 c9 by (intro conjI)
qed

theorem C6_probe_every_frequency_witness:
  "wdte_cycle (wd_initial None) = 0
   \<and> extended_seq (replicate 11 256) (wd_initial None) = ([], wd_initial None\<lparr>wdte_cycle := 11\<rparr>)
   \<and> Ev_system \<in> set (fst (watchdog_extended 256 (snd (extended_seq (replicate 11 256) (wd_initial None)))))
   \<and> wdte_cycle (snd (watchdog_extended 256 (snd (extended_seq (replicate 11 256) (wd_initial None))))) = 0
   \<and> wdte_cycle (wd_initial None\<lparr>wdt_fd := 3, wdt_cb := True, wdt_pending := True\<rparr>) = 0
   \<and> wdt_pending (wd_initial None\<lparr>wdt_fd := 3, wdt_cb := True, wdt_pending := True\<rparr>)
   \<and> wdt_cb (wd_initial None\<lparr>wdt_fd := 3, wdt_cb := True, wdt_pending := True\<rparr>)
   \<and> wdte_failures (wd_initial None\<lparr>wdt_fd := 3, wdt_cb := True, wdt_pending := True\<rparr>)
       <s WDTE_FAILURES_THRESHOLD
   \<and> Ev_system \<notin> set (fst (run (map Op_tick (replicate 11 \<lparr>cb_system = 256, cb_write = 1\<rparr>))
        (wd_initial None\<lparr>wdt_fd := 3, wdt_cb := True, wdt_pending := True\<rparr>)))
   \<and> snd (run (map Op_tick (replicate 11 \<lparr>cb_system = 256, cb_write = 1\<rparr>))
        (wd_initial None\<lparr>wdt_fd := 3, wdt_cb := True, wdt_pending := True\<rparr>)) =
       wd_initial None\<lparr>wdt_fd := 3, wdt_cb := True, wdt_pending := True, wdte_cycle := 11\<rparr>
   \<and> Ev_system \<in> set (fst (step (Op_tick \<lparr>cb_system = 256, cb_write = 1\<rparr>)
        (snd (run (map Op_tick (replicate 11 \<lparr>cb_system = 256, cb_write = 1\<rparr>))
          (wd_initial None\<lparr>wdt_fd := 3, wdt_cb := True, wdt_pending := True\<rparr>)))))
   \<and> wdte_cycle (snd (step (Op_tick \<lparr>cb_system = 256, cb_write = 1\<rparr>)
        (snd (run (map Op_tick (replicate 11 \<lparr>cb_system = 256, cb_write = 1\<rparr>))
          (wd_initial None\<lparr>wdt_fd := 3, wdt_cb := True, wdt_pending := True\<rparr>))))) = 0"
proof -
  let ?s = "wd_initial None\<lparr>wdt_fd := 3, wdt_cb := True, wdt_pending := True\<rparr>"
  let ?e = "\<lparr>cb_system = 256, cb_write = 1\<rparr>"
  let ?es = "replicate 11 ?e"
  have h: "wdte_cycle (wd_initial None) = 0"
    by (simp add: wd_initial_def)
  have l: "length (replicate 11 (256::cint)) = 11"
    by simp
  note c = C6_probe_every_frequency [OF h, of "replicate 11 256" "[]" "\<lparr>cb_system = 0, cb_write = 1\<rparr>" 256,
      unfolded l, simplified]
  have a1: "extended_seq (replicate 11 256) (wd_initial None) =
      ([], wd_initial None\<lparr>wdte_cycle := 11\<rparr>)"
    and a2: "Ev_system \<in> set (fst (watchdog_extended 256
      (snd (extended_seq (replicate 11 256) (wd_initial None)))))"
    and a3: "wdte_cycle (snd (watchdog_extended 256
      (snd (extended_seq (replicate 11 256) (wd_initial None))))) = 0"
    using c by blast+
  have h2: "wdte_cycle ?s = 0"
    by (simp add: wd_initial_def)
  have p: "wdt_pending ?s"
    by simp
  have cb: "wdt_cb ?s"
    by simp
  have f: "wdte_failures ?s <s WDTE_FAILURES_THRESHOLD"
    by code_simp
  have l2: "length ?es = 11"
    by simp
  note d = C6_probe_every_frequency [OF h2, of "[]" ?es ?e 0, unfolded l2]
  from d p cb f have d1: "Ev_system \<notin> set (fst (run (map Op_tick ?es) ?s))"
    and d2: "snd (run (map Op_tick ?es) ?s) = ?s\<lparr>wdte_cycle := 11\<rparr>"
    by simp_all
  from d p cb f have d3: "Ev_system \<in> set (fst (step (Op_tick ?e) (snd (run (map Op_tick ?es) ?s))))"
    and d4: "wdte_cycle (snd (step (Op_tick ?e) (snd (run (map Op_tick ?es) ?s)))) = 0"
    by blast+
  show ?thesis
    using h a1 a2 a3 h2 p cb f d1 d2 d3 d4 by blast
qed

section \<open>Ranges of the counters\<close>

lemma extended_cycle_range:
  assumes "0 <=s wdte_cycle s" and "wdte_cycle s <s WDTE_FREQUENCY"
  shows "0 <=s wdte_cycle (snd (watchdog_extended x s))
    \<and> wdte_cycle (snd (watchdog_extended x s)) <s WDTE_FREQUENCY"
proof -
  have "sint (wdte_cycle s) < 2147483647"
    using assms(2) by (simp add: word_sless_alt WDTE_FREQUENCY_def)
  from sint_succ [OF this] assms show ?thesis
    by (simp add: watchdog_extended_def Let_def word_sle_eq word_sless_alt WDTE_FREQUENCY_def)
qed

lemma extended_failures_range:
  assumes "0 <=s wdte_failures s" and "wdte_failures s <s WDTE_FAILURES_THRESHOLD"
  shows "failures_in_range (snd (watchdog_extended x s))"
proof -
  have "sint (wdte_failures s) < 2147483647"
    using assms(2) by (simp add: word_sless_alt WDTE_FAILURES_THRESHOLD_def)
  from sint_succ [OF this] assms show ?thesis
    by (simp add: watchdog_extended_def Let_def word_sle_eq word_sless_alt
        WDTE_FAILURES_THRESHOLD_def failures_in_range_def)
qed

text \<open>A failure counter that reaches the threshold does so in a probe, which resets the cycle.\<close>

lemma extended_threshold_cycle:
  assumes "wdte_failures s <s WDTE_FAILURES_THRESHOLD"
  shows "wdte_failures (snd (watchdog_extended x s)) <s WDTE_FAILURES_THRESHOLD
    \<or> wdte_cycle (snd (watchdog_extended x s)) = 0"
  using assms by (simp add: watchdog_extended_def Let_def)

lemma extended_idle:
  assumes "wdte_cycle s = 0"
  shows "watchdog_extended x s = ([], s\<lparr>wdte_cycle := 1\<rparr>)"
  using extended_skip [of s 0 x] assms by simp

lemma cb_inv:
  assumes "0 <=s wdte_cycle s" and "wdte_cycle s <s WDTE_FREQUENCY"
  shows "wd_inv (snd (watchdog_timeout_cb e s))"
  using extended_cycle_range [OF assms, of "cb_system e"]
  by (simp add: cb_state wd_inv_def)

lemma cb_failures_inv:
  assumes "0 <=s wdte_failures s" and "wdte_failures s <s WDTE_FAILURES_THRESHOLD"
  shows "failures_inv (snd (watchdog_timeout_cb e s))"
  using extended_failures_range [OF assms, of "cb_system e"]
    extended_threshold_cycle [OF assms(2), of "cb_system e"]
  by (auto simp add: cb_state failures_inv_def failures_in_range_def)

text \<open>
  The callback run at the threshold while the cycle counter is 0, as by an initialisation
  that gets a descriptor after the scheduler stopped: no probe, and the counter stays.
\<close>

lemma cb_at_threshold:
  assumes "failures_in_range s" and "wdte_cycle s = 0" and "0 <=s wdt_fd s"
  shows "failures_inv (snd (watchdog_timeout_cb e s))"
  using assms
  by (simp add: cb_state extended_idle failures_inv_def failures_in_range_def)

text \<open>The globals after \<open>watchdog_init\<close>.\<close>

lemma init_state:
  "snd (watchdog_init preinit ie s) =
    (if 0 <=s wdt_fd s then s
     else
       (let s1 = (case env_WDTFD s of
                    Some str \<Rightarrow> s\<lparr>wdt_cb := True, wdt_fd := atoi str, env_WDTFD := None\<rparr>
                  | None \<Rightarrow> s\<lparr>wdt_cb := True, wdt_fd := ie_open ie\<rparr>)
        in if wdt_fd s1 <s 0 then s1 else snd (watchdog_timeout_cb (ie_cb ie) s1)))"
  by (simp add: watchdog_init_def Let_def split_beta split: option.split)

lemma step_inv:
  assumes "wd_inv s"
  shows "wd_inv (snd (step x s))"
proof (cases x)
  case (Op_init preinit ie)
  let ?s1 = "(case env_WDTFD s of
                    Some str \<Rightarrow> s\<lparr>wdt_cb := True, wdt_fd := atoi str, env_WDTFD := None\<rparr>
                  | None \<Rightarrow> s\<lparr>wdt_cb := True, wdt_fd := ie_open ie\<rparr>)"
  have i1: "wd_inv ?s1"
    using assms by (simp add: wd_inv_def split: option.split)
  then have "wd_inv (snd (watchdog_timeout_cb (ie_cb ie) ?s1))"
    by (intro cb_inv) (simp_all add: wd_inv_def)
  with i1 assms show ?thesis
    unfolding Op_init step.simps init_state Let_def by simp
next
  case (Op_tick e)
  have "wd_inv (snd (watchdog_timeout_cb e (s\<lparr>wdt_pending := False\<rparr>)))"
    using assms by (intro cb_inv) (simp_all add: wd_inv_def)
  moreover have "wd_inv (s\<lparr>wdt_pending := False\<rparr>)"
    using assms by (simp add: wd_inv_def)
  ultimately show ?thesis
    using assms by (simp add: Op_tick uloop_fire_def Let_def)
next
  case (Op_set_stopped val e)
  have "wd_inv (snd (watchdog_timeout_cb e s))"
    using assms by (intro cb_inv) (simp_all add: wd_inv_def)
  with assms show ?thesis
    by (simp add: Op_set_stopped watchdog_set_stopped_def uloop_timeout_cancel_def wd_inv_def)
next
  case (Op_timeout t aset aget)
  with assms show ?thesis by simp
next
  case (Op_frequency f)
  with assms show ?thesis by (simp add: watchdog_frequency_def wd_inv_def Let_def)
next
  case (Op_ping w)
  with assms show ?thesis by (simp add: watchdog_ping_def)
qed

lemma step_failures:
  assumes "wd_inv s" and "failures_inv s"
    and "\<not> is_resume x \<or> wdte_failures s <s WDTE_FAILURES_THRESHOLD"
  shows "failures_inv (snd (step x s))"
proof (cases x)
  case (Op_init preinit ie)
  let ?s1 = "(case env_WDTFD s of
                    Some str \<Rightarrow> s\<lparr>wdt_cb := True, wdt_fd := atoi str, env_WDTFD := None\<rparr>
                  | None \<Rightarrow> s\<lparr>wdt_cb := True, wdt_fd := ie_open ie\<rparr>)"
  have f1: "wdte_failures ?s1 = wdte_failures s" and c1: "wdte_cycle ?s1 = wdte_cycle s"
    by (simp_all split: option.split)
  have r1: "failures_in_range ?s1"
    using assms(2) f1 by (simp add: failures_inv_def failures_in_range_def)
  show ?thesis
  proof (cases "0 <=s wdt_fd s")
    case True
    with assms(2) show ?thesis
      unfolding Op_init step.simps init_state by simp
  next
    case closed: False
    then have th: "wdte_failures s <s WDTE_FAILURES_THRESHOLD \<or> wdte_cycle s = 0"
      using assms(2) by (simp add: failures_inv_def)
    show ?thesis
    proof (cases "wdt_fd ?s1 <s 0")
      case True
      have "failures_inv ?s1"
        using r1 th f1 c1 by (auto simp add: failures_inv_def)
      with closed True show ?thesis
        unfolding Op_init step.simps init_state Let_def by simp
    next
      case False
      then have fd1: "0 <=s wdt_fd ?s1"
        by (simp add: not_sle_iff [symmetric])
      have "failures_inv (snd (watchdog_timeout_cb (ie_cb ie) ?s1))"
      proof (cases "wdte_failures s <s WDTE_FAILURES_THRESHOLD")
        case True
        with r1 f1 show ?thesis
          by (intro cb_failures_inv) (simp_all add: failures_in_range_def)
      next
        case False
        with th c1 have "wdte_cycle ?s1 = 0" by simp
        with r1 fd1 show ?thesis
          by (intro cb_at_threshold)
      qed
      with closed False show ?thesis
        unfolding Op_init step.simps init_state Let_def by simp
    qed
  qed
next
  case (Op_tick e)
  have idle: "failures_inv (s\<lparr>wdt_pending := False\<rparr>)"
    using assms(2) by (simp add: failures_inv_def failures_in_range_def)
  show ?thesis
  proof (cases "wdt_pending s")
    case True
    with assms(1) have "wdte_failures s <s WDTE_FAILURES_THRESHOLD"
      by (simp add: wd_inv_def)
    with assms(2) have "failures_inv (snd (watchdog_timeout_cb e (s\<lparr>wdt_pending := False\<rparr>)))"
      by (intro cb_failures_inv) (simp_all add: failures_inv_def failures_in_range_def)
    with True idle show ?thesis by (simp add: Op_tick uloop_fire_def Let_def)
  next
    case False
    with assms(2) show ?thesis by (simp add: Op_tick uloop_fire_def)
  qed
next
  case (Op_set_stopped val e)
  show ?thesis
  proof (cases val)
    case True
    with assms(2) show ?thesis
      by (simp add: Op_set_stopped watchdog_set_stopped_def uloop_timeout_cancel_def
          failures_inv_def failures_in_range_def)
  next
    case False
    with assms(3) have "wdte_failures s <s WDTE_FAILURES_THRESHOLD"
      by (simp add: Op_set_stopped)
    with assms(2) have "failures_inv (snd (watchdog_timeout_cb e s))"
      by (intro cb_failures_inv) (simp_all add: failures_inv_def failures_in_range_def)
    with False show ?thesis by (simp add: Op_set_stopped watchdog_set_stopped_def)
  qed
next
  case (Op_timeout t aset aget)
  with assms show ?thesis by simp
next
  case (Op_frequency f)
  with assms show ?thesis
    by (simp add: watchdog_frequency_def failures_inv_def failures_in_range_def Let_def)
next
  case (Op_ping w)
  with assms show ?thesis by (simp add: watchdog_ping_def)
qed

lemma run_inv:
  assumes "wd_inv s"
  shows "wd_inv (snd (run ops s))"
  using assms
proof (induction ops arbitrary: s)
  case Nil
  then show ?case by simp
next
  case (Cons x ops)
  from Cons.IH [OF step_inv [OF Cons.prems, of x]] show ?case
    by (simp add: split_beta)
qed

lemma run_failures:
  assumes "wd_inv s" and "failures_inv s" and "resumes_below_threshold ops s"
  shows "failures_inv (snd (run ops s))"
  using assms
proof (induction ops arbitrary: s)
  case Nil
  then show ?case by simp
next
  case (Cons x ops)
  have "failures_inv (snd (step x s))"
    using Cons.prems by (intro step_failures) simp_all
  from Cons.IH [OF step_inv [OF Cons.prems(1), of x] this] Cons.prems(3) show ?case
    by (simp add: split_beta)
qed

lemma initial_inv: "wd_inv (wd_initial e) \<and> failures_inv (wd_initial e)"
  by (simp add: wd_inv_def failures_inv_def failures_in_range_def wd_initial_def word_sle_eq
      word_sless_alt WDTE_FREQUENCY_def WDTE_FAILURES_THRESHOLD_def)

text \<open>
  Claim C2, as stated: after every sequence of public operations the failure counter is at
  most \<open>WDTE_FAILURES_THRESHOLD\<close>. It fails once resume requests go on after the scheduler
  has stopped: initialise with descriptor 3, let the timer tick 11 times so that the probe
  runs and answers with exit code 64 (failure counter 15, timer cancelled), then call
  \<open>watchdog_set_stopped False\<close> 12 times with a probe that exits with code 1. The twelfth
  call runs the probe and the counter becomes 16.
\<close>

theorem C2_failures_exceed_counterexample:
  "\<not> wdte_failures (snd (run
        (Op_init 0 \<lparr>ie_open = 3, ie_getfd = 0, ie_set = Some 30, ie_get = Some 30,
                    ie_cb = \<lparr>cb_system = 16384, cb_write = 1\<rparr>, ie_debug = 0, ie_get0 = None\<rparr>
         # replicate 11 (Op_tick \<lparr>cb_system = 16384, cb_write = 1\<rparr>)
         @ replicate 12 (Op_set_stopped False \<lparr>cb_system = 256, cb_write = 1\<rparr>))
        (wd_initial None))) <=s WDTE_FAILURES_THRESHOLD"
  by code_simp

text \<open>
  Claim C2, amended. After every sequence of operations (initialise, timer ticks,
  \<open>watchdog_set_stopped\<close>, \<open>watchdog_timeout\<close>, \<open>watchdog_frequency\<close>, \<open>watchdog_ping\<close>) from
  the initial globals the cycle counter is in \<open>[0, WDTE_FREQUENCY)\<close>. The failure counter is
  in \<open>[0, WDTE_FAILURES_THRESHOLD]\<close> after every sequence in which each resume request
  (\<open>watchdog_set_stopped False\<close>) is made while the failure counter is below the threshold.
\<close>

theorem C2_counter_ranges:
  "0 <=s wdte_cycle (snd (run ops (wd_initial e)))
   \<and> wdte_cycle (snd (run ops (wd_initial e))) <s WDTE_FREQUENCY
   \<and> (resumes_below_threshold ops (wd_initial e) \<longrightarrow>
        0 <=s wdte_failures (snd (run ops (wd_initial e)))
        \<and> wdte_failures (snd (run ops (wd_initial e))) <=s WDTE_FAILURES_THRESHOLD)"
  using run_inv [of "wd_initial e" ops] run_failures [of "wd_initial e" ops] initial_inv [of e]
  by (simp add: wd_inv_def failures_inv_def failures_in_range_def)

theorem C2_counter_ranges_witness:
  "resumes_below_threshold
      (replicate 12 (Op_set_stopped False \<lparr>cb_system = 16384, cb_write = 1\<rparr>)
       @ [Op_init 0 \<lparr>ie_open = 3, ie_getfd = 0, ie_set = Some 30, ie_get = Some 30,
                    ie_cb = \<lparr>cb_system = 0, cb_write = 1\<rparr>, ie_debug = 0, ie_get0 = None\<rparr>,
          Op_tick \<lparr>cb_system = 0, cb_write = 1\<rparr>,
          Op_set_stopped True \<lparr>cb_system = 0, cb_write = 1\<rparr>,
          Op_timeout 0 None (Some 30), Op_frequency 7, Op_ping 1])
      (wd_initial None)
   \<and> 0 <=s wdte_failures (snd (run
      (replicate 12 (Op_set_stopped False \<lparr>cb_system = 16384, cb_write = 1\<rparr>)
       @ [Op_init 0 \<lparr>ie_open = 3, ie_getfd = 0, ie_set = Some 30, ie_get = Some 30,
                    ie_cb = \<lparr>cb_system = 0, cb_write = 1\<rparr>, ie_debug = 0, ie_get0 = None\<rparr>,
          Op_tick \<lparr>cb_system = 0, cb_write = 1\<rparr>,
          Op_set_stopped True \<lparr>cb_system = 0, cb_write = 1\<rparr>,
          Op_timeout 0 None (Some 30), Op_frequency 7, Op_ping 1])
      (wd_initial None)))
   \<and> wdte_failures (snd (run
      (replicate 12 (Op_set_stopped False \<lparr>cb_system = 16384, cb_write = 1\<rparr>)
       @ [Op_init 0 \<lparr>ie_open = 3, ie_getfd = 0, ie_set = Some 30, ie_get = Some 30,
                    ie_cb = \<lparr>cb_system = 0, cb_write = 1\<rparr>, ie_debug = 0, ie_get0 = None\<rparr>,
          Op_tick \<lparr>cb_system = 0, cb_write = 1\<rparr>,
          Op_set_stopped True \<lparr>cb_system = 0, cb_write = 1\<rparr>,
          Op_timeout 0 None (Some 30), Op_frequency 7, Op_ping 1])
      (wd_initial None))) <=s WDTE_FAILURES_THRESHOLD
   \<and> wdte_cycle (snd (run
      (replicate 12 (Op_set_stopped False \<lparr>cb_system = 16384, cb_write = 1\<rparr>)
       @ [Op_init 0 \<lparr>ie_open = 3, ie_getfd = 0, ie_set = Some 30, ie_get = Some 30,
                    ie_cb = \<lparr>cb_system = 0, cb_write = 1\<rparr>, ie_debug = 0, ie_get0 = None\<rparr>,
          Op_tick \<lparr>cb_system = 0, cb_write = 1\<rparr>,
          Op_set_stopped True \<lparr>cb_system = 0, cb_write = 1\<rparr>,
          Op_timeout 0 None (Some 30), Op_frequency 7, Op_ping 1])
      (wd_initial None))) <s WDTE_FREQUENCY"
proof -
  let ?ops = "replicate 12 (Op_set_stopped False \<lparr>cb_system = 16384, cb_write = 1\<rparr>)
       @ [Op_init 0 \<lparr>ie_open = 3, ie_getfd = 0, ie_set = Some 30, ie_get = Some 30,
                    ie_cb = \<lparr>cb_system = 0, cb_write = 1\<rparr>, ie_debug = 0, ie_get0 = None\<rparr>,
          Op_tick \<lparr>cb_system = 0, cb_write = 1\<rparr>,
          Op_set_stopped True \<lparr>cb_system = 0, cb_write = 1\<rparr>,
          Op_timeout 0 None (Some 30), Op_frequency 7, Op_ping 1]"
  have h: "resumes_below_threshold ?ops (wd_initial None)"
    by code_simp
  from C2_counter_ranges [of ?ops None] h show ?thesis
    by blast
qed

section \<open>The scheduler after the threshold\<close>

lemma init_skipped:
  assumes "\<not> calls_cb (Op_init preinit ie) s"
  shows "\<not> wdt_pending s \<longrightarrow> \<not> wdt_pending (snd (watchdog_init preinit ie s))"
    and "wdte_failures (snd (watchdog_init preinit ie s)) = wdte_failures s"
    and "wdte_cycle (snd (watchdog_init preinit ie s)) = wdte_cycle s"
    and "0 <=s wdt_fd (snd (watchdog_init preinit ie s)) \<longleftrightarrow> 0 <=s wdt_fd s"
    and "Ev_timer_set ms \<notin> set (fst (watchdog_init preinit ie s))"
    and "filter is_write (fst (watchdog_init preinit ie s)) = []"
  using assms
  by (auto simp add: watchdog_init_def Let_def not_sle_iff split: option.splits)

lemma step_stopped:
  assumes "\<not> wdt_pending s" and "\<not> calls_cb x s"
  shows "\<not> wdt_pending (snd (step x s))
    \<and> wdte_failures (snd (step x s)) = wdte_failures s
    \<and> wdte_cycle (snd (step x s)) = wdte_cycle s
    \<and> (0 <=s wdt_fd (snd (step x s)) \<longleftrightarrow> 0 <=s wdt_fd s)
    \<and> (\<forall>ms. Ev_timer_set ms \<notin> set (fst (step x s)))
    \<and> length (filter is_write (fst (step x s))) = (if 0 <=s wdt_fd s \<and> is_ping x then 1 else 0)"
proof (cases x)
  case (Op_init preinit ie)
  with assms init_skipped [of preinit ie s] show ?thesis by simp
next
  case (Op_tick e)
  with assms show ?thesis by (simp add: uloop_fire_def)
next
  case (Op_set_stopped val e)
  with assms show ?thesis by (simp add: watchdog_set_stopped_def uloop_timeout_cancel_def)
next
  case (Op_timeout t aset aget)
  with assms show ?thesis by (simp add: watchdog_timeout_def split_beta)
next
  case (Op_frequency f)
  with assms show ?thesis by (simp add: watchdog_frequency_def Let_def)
next
  case (Op_ping w)
  with assms show ?thesis by (simp add: watchdog_ping_def)
qed

lemma run_stopped:
  assumes "\<not> wdt_pending s" and "without_resume ops s"
  shows "\<not> wdt_pending (snd (run ops s))
    \<and> wdte_failures (snd (run ops s)) = wdte_failures s
    \<and> wdte_cycle (snd (run ops s)) = wdte_cycle s
    \<and> (\<forall>ms. Ev_timer_set ms \<notin> set (fst (run ops s)))
    \<and> length (filter is_write (fst (run ops s))) =
        (if 0 <=s wdt_fd s then length (filter is_ping ops) else 0)"
  using assms
proof (induction ops arbitrary: s)
  case Nil
  then show ?case by simp
next
  case (Cons x ops)
  from Cons.prems have nc: "\<not> calls_cb x s" and wr: "without_resume ops (snd (step x s))"
    by simp_all
  note st = step_stopped [OF Cons.prems(1) nc]
  from st have p1: "\<not> wdt_pending (snd (step x s))" by simp
  from Cons.IH [OF p1 wr] st show ?case
    by (simp add: split_beta)
qed

text \<open>
  Claim C3, as stated: once the failure counter has reached the threshold, the device is
  never pinged and the timer never armed again, also after resume requests. It fails:
  initialise with descriptor 3 and let the timer tick 11 times, the probe answering with exit
  code 64; the failure counter is 15 and the timer is cancelled. Twelve resume requests
  later the probe runs again, exits with code 0, the counter is reset, and the callback
  writes to descriptor 3 and arms the timer.
\<close>

theorem C3_resume_revives_counterexample:
  "wdte_failures (snd (run
        (Op_init 0 \<lparr>ie_open = 3, ie_getfd = 0, ie_set = Some 30, ie_get = Some 30,
                    ie_cb = \<lparr>cb_system = 16384, cb_write = 1\<rparr>, ie_debug = 0, ie_get0 = None\<rparr>
         # replicate 11 (Op_tick \<lparr>cb_system = 16384, cb_write = 1\<rparr>))
        (wd_initial None))) = WDTE_FAILURES_THRESHOLD
   \<and> \<not> wdt_pending (snd (run
        (Op_init 0 \<lparr>ie_open = 3, ie_getfd = 0, ie_set = Some 30, ie_get = Some 30,
                    ie_cb = \<lparr>cb_system = 16384, cb_write = 1\<rparr>, ie_debug = 0, ie_get0 = None\<rparr>
         # replicate 11 (Op_tick \<lparr>cb_system = 16384, cb_write = 1\<rparr>))
        (wd_initial None)))
   \<and> run (replicate 12 (Op_set_stopped False \<lparr>cb_system = 0, cb_write = 1\<rparr>))
        (snd (run
          (Op_init 0 \<lparr>ie_open = 3, ie_getfd = 0, ie_set = Some 30, ie_get = Some 30,
                      ie_cb = \<lparr>cb_system = 16384, cb_write = 1\<rparr>, ie_debug = 0, ie_get0 = None\<rparr>
           # replicate 11 (Op_tick \<lparr>cb_system = 16384, cb_write = 1\<rparr>))
          (wd_initial None)))
      = (replicate 11 Ev_error @ [Ev_system, Ev_write 3, Ev_timer_set 5000],
         \<lparr>wdt_pending = True, wdt_cb = True, wdt_fd = 3, wdt_frequency = 5,
          wdte_failures = 0, wdte_cycle = 0, env_WDTFD = None\<rparr>)"
  by code_simp

text \<open>
  Claim C3, amended. When the failure counter is at or above the threshold after the
  extended-watchdog cycle of a run of the timer callback, that run cancels the timer, does
  not write to the device and does not arm the timer. A stopped scheduler stays stopped, with
  the failure counter unchanged, no arming of the timer, and no write to the device other
  than one for each explicit \<open>watchdog_ping\<close> on an enabled handle, over every sequence of
  operations that holds no resume request and no initialisation that gets a descriptor. A
  resume request runs the callback again, and when the failure counter is below the
  threshold after its extended-watchdog cycle (as after a probe that exits with code 0), it
  pings an enabled device and arms the timer.
\<close>

theorem C3_stopped_until_resume:
  "(WDTE_FAILURES_THRESHOLD <=s wdte_failures (snd (watchdog_extended (cb_system e) s)) \<longrightarrow>
      \<not> wdt_pending (snd (watchdog_timeout_cb e s))
      \<and> (\<forall>fd. Ev_write fd \<notin> set (fst (watchdog_timeout_cb e s)))
      \<and> (\<forall>ms. Ev_timer_set ms \<notin> set (fst (watchdog_timeout_cb e s))))
   \<and> (\<not> wdt_pending s \<and> without_resume ops s \<longrightarrow>
      \<not> wdt_pending (snd (run ops s))
      \<and> wdte_failures (snd (run ops s)) = wdte_failures s
      \<and> (\<forall>ms. Ev_timer_set ms \<notin> set (fst (run ops s)))
      \<and> length (filter is_write (fst (run ops s))) =
          (if 0 <=s wdt_fd s then length (filter is_ping ops) else 0))
   \<and> (wdte_failures (snd (watchdog_extended (cb_system e) s)) <s WDTE_FAILURES_THRESHOLD \<longrightarrow>
      wdt_pending (snd (watchdog_set_stopped False e s))
      \<and> Ev_timer_set (wdt_frequency s * 1000) \<in> set (fst (watchdog_set_stopped False e s))
      \<and> (0 <=s wdt_fd s \<longrightarrow> Ev_write (wdt_fd s) \<in> set (fst (watchdog_set_stopped False e s))))"
proof -
  have a: "WDTE_FAILURES_THRESHOLD <=s wdte_failures (snd (watchdog_extended (cb_system e) s)) \<Longrightarrow>
      \<not> wdt_pending (snd (watchdog_timeout_cb e s))
      \<and> (\<forall>fd. Ev_write fd \<notin> set (fst (watchdog_timeout_cb e s)))
      \<and> (\<forall>ms. Ev_timer_set ms \<notin> set (fst (watchdog_timeout_cb e s)))"
    by (simp add: cb_stop extended_no_write extended_no_timer)
  have c: "wdte_failures (snd (watchdog_extended (cb_system e) s)) <s WDTE_FAILURES_THRESHOLD \<Longrightarrow>
      wdt_pending (snd (watchdog_set_stopped False e s))
      \<and> Ev_timer_set (wdt_frequency s * 1000) \<in> set (fst (watchdog_set_stopped False e s))
      \<and> (0 <=s wdt_fd s \<longrightarrow> Ev_write (wdt_fd s) \<in> set (fst (watchdog_set_stopped False e s)))"
    by (simp add: watchdog_set_stopped_def cb_rearm not_sle_thresh watchdog_ping_def extended_fd)
  from a c run_stopped [of s ops] show ?thesis
    by blast
qed


theorem C3_stopped_until_resume_witness:
  "WDTE_FAILURES_THRESHOLD <=s wdte_failures (snd (watchdog_extended
       (cb_system \<lparr>cb_system = 0, cb_write = 1\<rparr>) (wd_initial None\<lparr>wdt_fd := 3, wdt_cb := True, wdte_failures := 15\<rparr>)))
   \<and> \<not> wdt_pending (snd (watchdog_timeout_cb \<lparr>cb_system = 0, cb_write = 1\<rparr>
       (wd_initial None\<lparr>wdt_fd := 3, wdt_cb := True, wdte_failures := 15\<rparr>)))
   \<and> \<not> wdt_pending (wd_initial None\<lparr>wdt_fd := 3, wdt_cb := True, wdte_failures := 15\<rparr>)
   \<and> without_resume
        [Op_tick \<lparr>cb_system = 0, cb_write = 1\<rparr>, Op_set_stopped True \<lparr>cb_system = 0, cb_write = 1\<rparr>,
         Op_ping 1, Op_timeout 0 None (Some 30), Op_frequency 7]
        (wd_initial None\<lparr>wdt_fd := 3, wdt_cb := True, wdte_failures := 15\<rparr>)
   \<and> \<not> wdt_pending (snd (run
        [Op_tick \<lparr>cb_system = 0, cb_write = 1\<rparr>, Op_set_stopped True \<lparr>cb_system = 0, cb_write = 1\<rparr>,
         Op_ping 1, Op_timeout 0 None (Some 30), Op_frequency 7]
        (wd_initial None\<lparr>wdt_fd := 3, wdt_cb := True, wdte_failures := 15\<rparr>)))
   \<and> wdte_failures (snd (watchdog_extended
       (cb_system \<lparr>cb_system = 0, cb_write = 1\<rparr>) (wd_initial None\<lparr>wdt_fd := 3, wdt_cb := True\<rparr>)))
       <s WDTE_FAILURES_THRESHOLD
   \<and> wdt_pending (snd (watchdog_set_stopped False \<lparr>cb_system = 0, cb_write = 1\<rparr>
       (wd_initial None\<lparr>wdt_fd := 3, wdt_cb := True\<rparr>)))
   \<and> 0 <=s wdt_fd (wd_initial None\<lparr>wdt_fd := 3, wdt_cb := True\<rparr>)
   \<and> Ev_write (wdt_fd (wd_initial None\<lparr>wdt_fd := 3, wdt_cb := True\<rparr>))
        \<in> set (fst (watchdog_set_stopped False \<lparr>cb_system = 0, cb_write = 1\<rparr>
             (wd_initial None\<lparr>wdt_fd := 3, wdt_cb := True\<rparr>)))"
proof -
  let ?e = "\<lparr>cb_system = 0, cb_write = 1\<rparr>"
  let ?s = "wd_initial None\<lparr>wdt_fd := 3, wdt_cb := True, wdte_failures := 15\<rparr>"
  let ?ops = "[Op_tick ?e, Op_set_stopped True ?e, Op_ping 1, Op_timeout 0 None (Some 30),
    Op_frequency 7]"
  have h1: "WDTE_FAILURES_THRESHOLD <=s wdte_failures (snd (watchdog_extended (cb_system ?e) ?s))"
    by code_simp
  have h2: "\<not> wdt_pending ?s"
    by (simp add: wd_initial_def)
  have h3: "without_resume ?ops ?s"
    by code_simp
  have h4: "wdte_failures (snd (watchdog_extended (cb_system ?e) (wd_initial None\<lparr>wdt_fd := 3, wdt_cb := True\<rparr>)))
      <s WDTE_FAILURES_THRESHOLD"
    by code_simp
  from C3_stopped_until_resume [of ?e ?s ?ops] h1 h2 h3
  have c1: "\<not> wdt_pending (snd (watchdog_timeout_cb ?e ?s))"
    and c2: "\<not> wdt_pending (snd (run ?ops ?s))"
    by blast+
  from C3_stopped_until_resume [of ?e "wd_initial None\<lparr>wdt_fd := 3, wdt_cb := True\<rparr>" "[]"] h4
  have c3: "wdt_pending (snd (watchdog_set_stopped False ?e (wd_initial None\<lparr>wdt_fd := 3, wdt_cb := True\<rparr>)))"
    by blast
  have h5: "0 <=s wdt_fd (wd_initial None\<lparr>wdt_fd := 3, wdt_cb := True\<rparr>)"
    by (simp add: word_sle_eq)
  from C3_stopped_until_resume [of ?e "wd_initial None\<lparr>wdt_fd := 3, wdt_cb := True\<rparr>" "[]"] h4 h5
  have c4: "Ev_write (wdt_fd (wd_initial None\<lparr>wdt_fd := 3, wdt_cb := True\<rparr>))
      \<in> set (fst (watchdog_set_stopped False ?e (wd_initial None\<lparr>wdt_fd := 3, wdt_cb := True\<rparr>)))"
    by blast
  from h1 h2 h3 h4 h5 c1 c2 c3 c4 show ?thesis
    by blast
qed

section \<open>Handing the descriptor over to a new process image\<close>

lemma sword_small:
  fixes d :: cint
  assumes "0 <=s d" and "d <s 100"
  shows "nat (sint d) < 100 \<and> d = of_nat (nat (sint d))"
  using assms by (simp add: word_sle_eq word_sless_alt)

lemma roundtrip_table: "\<forall>k \<in> set [0..<100]. atoi (snprintf_d 3 (of_nat k)) = of_nat k"
  by code_simp

lemma atoi_snprintf_small:
  fixes d :: cint
  assumes "0 <=s d" and "d <s 100"
  shows "atoi (snprintf_d 3 d) = d"
proof -
  from sword_small [OF assms] have k: "nat (sint d) \<in> set [0..<100]" and d: "d = of_nat (nat (sint d))"
    by simp_all
  from roundtrip_table k have "atoi (snprintf_d 3 (of_nat (nat (sint d)))) = of_nat (nat (sint d))"
    by blast
  with d show ?thesis by simp
qed

lemma extended_env: "env_WDTFD (snd (watchdog_extended sys s)) = env_WDTFD s"
  by (simp add: watchdog_extended_def Let_def)

lemma extended_no_open: "Ev_open \<notin> set (fst (watchdog_extended sys s))"
  by (simp add: watchdog_extended_def Let_def)

lemma cb_no_open: "Ev_open \<notin> set (fst (watchdog_timeout_cb e s))"
proof (cases "WDTE_FAILURES_THRESHOLD <=s wdte_failures (snd (watchdog_extended (cb_system e) s))")
  case True
  then show ?thesis by (simp add: cb_stop extended_no_open)
next
  case False
  then show ?thesis by (simp add: cb_rearm extended_no_open watchdog_ping_def)
qed

lemma timeout_no_open: "Ev_open \<notin> set (fst (watchdog_timeout t aset aget s))"
  by (simp add: watchdog_timeout_def split_beta)

text \<open>
  An initialisation that finds \<^verbatim>\<open>WDTFD\<close> set to a string whose value is not negative adopts
  that value as the descriptor, clears the variable and does not open the device.
\<close>

lemma init_adopts:
  assumes "wdt_fd s <s 0" and "env_WDTFD s = Some str" and "0 <=s atoi str"
  shows "wdt_fd (snd (watchdog_init preinit ie s)) = atoi str
    \<and> env_WDTFD (snd (watchdog_init preinit ie s)) = None
    \<and> Ev_unsetenv \<in> set (fst (watchdog_init preinit ie s))
    \<and> Ev_open \<notin> set (fst (watchdog_init preinit ie s))"
proof -
  let ?s1 = "s\<lparr>wdt_cb := True, wdt_fd := atoi str, env_WDTFD := None\<rparr>"
  have n: "\<not> 0 <=s wdt_fd s" "\<not> atoi str <s 0"
    using assms(1,3) by (simp_all add: not_sle_iff [symmetric])
  have st: "snd (watchdog_init preinit ie s) = snd (watchdog_timeout_cb (ie_cb ie) ?s1)"
    using assms(2) n by (simp add: init_state)
  have ev: "fst (watchdog_init preinit ie s) =
      [Ev_unsetenv]
      @ (if preinit = 0 then
           [Ev_fcntl_getfd (atoi str), Ev_fcntl_setfd (atoi str) (ie_getfd ie OR FD_CLOEXEC)]
         else [])
      @ fst (watchdog_timeout 30 (ie_set ie) (ie_get ie) ?s1)
      @ fst (watchdog_timeout_cb (ie_cb ie) ?s1)
      @ (if 4 <=s ie_debug ie then
           fst (watchdog_timeout 0 None (ie_get0 ie) (snd (watchdog_timeout_cb (ie_cb ie) ?s1)))
         else [])"
    using assms(2) n by (simp add: watchdog_init_def Let_def split_beta)
  show ?thesis
    unfolding st ev
    by (simp add: cb_state extended_fd extended_env cb_no_open timeout_no_open)
qed

text \<open>
  For a descriptor from 0 to 99 the round trip holds: the string \<open>watchdog_fd\<close> gives, put
  in \<^verbatim>\<open>WDTFD\<close> of a fresh process image, makes \<open>watchdog_init\<close> adopt the same descriptor
  without opening the device, and the variable is cleared.
\<close>

lemma handover_roundtrip_below_100:
  assumes "0 <=s wdt_fd s" and "wdt_fd s <s 100"
  shows "wdt_fd (snd (watchdog_init preinit ie (wd_initial (watchdog_fd s)))) = wdt_fd s
    \<and> env_WDTFD (snd (watchdog_init preinit ie (wd_initial (watchdog_fd s)))) = None
    \<and> Ev_open \<notin> set (fst (watchdog_init preinit ie (wd_initial (watchdog_fd s))))"
proof -
  have f: "watchdog_fd s = Some (snprintf_d 3 (wdt_fd s))"
    using assms(1) by (simp add: watchdog_fd_def not_sle_iff [symmetric])
  have a: "atoi (snprintf_d 3 (wdt_fd s)) = wdt_fd s"
    using assms by (rule atoi_snprintf_small)
  have "wdt_fd (wd_initial (Some (snprintf_d 3 (wdt_fd s)))) <s 0"
    by (simp add: wd_initial_def word_sless_alt)
  moreover have "env_WDTFD (wd_initial (Some (snprintf_d 3 (wdt_fd s)))) =
      Some (snprintf_d 3 (wdt_fd s))"
    by (simp add: wd_initial_def)
  moreover have "0 <=s atoi (snprintf_d 3 (wdt_fd s))"
    using assms(1) a by simp
  ultimately show ?thesis
    using init_adopts [of "wd_initial (Some (snprintf_d 3 (wdt_fd s)))"
        "snprintf_d 3 (wdt_fd s)" preinit ie] a f
    by simp
qed

text \<open>
  Claim C5. The round trip is lost from descriptor 100 on: the buffer of \<open>watchdog_fd\<close> holds
  two characters, so descriptor 100 is exported as the string \<open>10\<close>, and a fresh process
  image that finds this string in \<^verbatim>\<open>WDTFD\<close> adopts descriptor 10. It does so without opening
  the device, and it clears the variable.
\<close>

theorem C5_handover_truncates_descriptor:
  "0 <=s wdt_fd (wd_initial None\<lparr>wdt_fd := 100, wdt_cb := True\<rparr>)
   \<and> watchdog_fd (wd_initial None\<lparr>wdt_fd := 100, wdt_cb := True\<rparr>) = Some ''10''
   \<and> wdt_fd (snd (watchdog_init 0
        \<lparr>ie_open = 3, ie_getfd = 0, ie_set = Some 30, ie_get = Some 30,
          ie_cb = \<lparr>cb_system = 0, cb_write = 1\<rparr>, ie_debug = 0, ie_get0 = None\<rparr>
        (wd_initial (watchdog_fd (wd_initial None\<lparr>wdt_fd := 100, wdt_cb := True\<rparr>))))) = 10
   \<and> wdt_fd (snd (watchdog_init 0
        \<lparr>ie_open = 3, ie_getfd = 0, ie_set = Some 30, ie_get = Some 30,
          ie_cb = \<lparr>cb_system = 0, cb_write = 1\<rparr>, ie_debug = 0, ie_get0 = None\<rparr>
        (wd_initial (watchdog_fd (wd_initial None\<lparr>wdt_fd := 100, wdt_cb := True\<rparr>)))))
       \<noteq> wdt_fd (wd_initial None\<lparr>wdt_fd := 100, wdt_cb := True\<rparr>)
   \<and> fst (watchdog_init 0
        \<lparr>ie_open = 3, ie_getfd = 0, ie_set = Some 30, ie_get = Some 30,
          ie_cb = \<lparr>cb_system = 0, cb_write = 1\<rparr>, ie_debug = 0, ie_get0 = None\<rparr>
        (wd_initial (watchdog_fd (wd_initial None\<lparr>wdt_fd := 100, wdt_cb := True\<rparr>)))) =
       [Ev_unsetenv, Ev_fcntl_getfd 10, Ev_fcntl_setfd 10 1, Ev_ioctl_settimeout 10 30,
        Ev_ioctl_gettimeout 10, Ev_write 10, Ev_timer_set 5000]"
  by code_simp

end
